theory Spec2Isabelle
  imports Main
begin

section \<open>ECMAScript string primitives used by the validators\<close>

text \<open>
  A JavaScript string is modelled as a \<^typ>\<open>string\<close> whose characters are the code
  units below 256 (ASCII and Latin-1). The functions below follow ECMA-262 for
  \<^verbatim>\<open>String.prototype.trim\<close>, \<^verbatim>\<open>toLowerCase\<close>, \<^verbatim>\<open>split\<close> with a one-character
  separator, \<^verbatim>\<open>includes\<close>, \<^verbatim>\<open>parseInt\<close> without radix and \<^verbatim>\<open>JSON.parse\<close>.
\<close>

definition code :: "char \<Rightarrow> nat" where
  "code c = of_char c"

text \<open>WhiteSpace and LineTerminator code units below 256: TAB, LF, VT, FF, CR, SP, NBSP.\<close>

definition isWhiteSpace :: "char \<Rightarrow> bool" where
  "isWhiteSpace c = (code c = 9 \<or> code c = 10 \<or> code c = 11 \<or> code c = 12 \<or>
                     code c = 13 \<or> code c = 32 \<or> code c = 160)"

definition trim :: "string \<Rightarrow> string" where
  "trim s = rev (dropWhile isWhiteSpace (rev (dropWhile isWhiteSpace s)))"

text \<open>
  \<^verbatim>\<open>toLowerCase\<close> moves \<^verbatim>\<open>A\<close>-\<^verbatim>\<open>Z\<close> and the Latin-1 capitals to the code unit 32 above,
  which for these code units is setting bit 5.
\<close>

fun lowerChar :: "char \<Rightarrow> char" where
  "lowerChar (Char b0 b1 b2 b3 b4 b5 b6 b7) =
     (let n = code (Char b0 b1 b2 b3 b4 b5 b6 b7)
      in if (65 \<le> n \<and> n \<le> 90) \<or> (192 \<le> n \<and> n \<le> 222 \<and> n \<noteq> 215)
         then Char b0 b1 b2 b3 b4 True b6 b7
         else Char b0 b1 b2 b3 b4 b5 b6 b7)"

definition toLowerCase :: "string \<Rightarrow> string" where
  "toLowerCase s = map lowerChar s"

text \<open>\<^verbatim>\<open>s.split(sep)\<close> for a one-character separator: never empty, \<^verbatim>\<open>''.split(',')\<close> is \<^verbatim>\<open>['']\<close>.\<close>

fun split :: "char \<Rightarrow> string \<Rightarrow> string list" where
  "split sep [] = [[]]"
| "split sep (c # cs) =
     (if c = sep then [] # split sep cs
      else (case split sep cs of
              [] \<Rightarrow> [[c]]
            | w # ws \<Rightarrow> (c # w) # ws))"

definition includes_char :: "string \<Rightarrow> char \<Rightarrow> bool" where
  "includes_char s c = (c \<in> set s)"

subsection \<open>parseInt\<close>

definition isDigit :: "char \<Rightarrow> bool" where
  "isDigit c = (48 \<le> code c \<and> code c \<le> 57)"

definition isHexDigit :: "char \<Rightarrow> bool" where
  "isHexDigit c = (isDigit c \<or> (65 \<le> code c \<and> code c \<le> 70) \<or> (97 \<le> code c \<and> code c \<le> 102))"

definition hexVal :: "char \<Rightarrow> nat" where
  "hexVal c = (if isDigit c then code c - 48
               else if code c \<le> 70 then code c - 55
               else code c - 87)"

definition digitsVal :: "nat \<Rightarrow> string \<Rightarrow> nat" where
  "digitsVal radix ds = foldl (\<lambda>n c. radix * n + hexVal c) 0 ds"

text \<open>
  \<^verbatim>\<open>parseInt(s)\<close>: leading white space is skipped, a sign is read, a \<^verbatim>\<open>0x\<close> prefix selects
  radix 16, the longest prefix of digits is converted; \<^verbatim>\<open>NaN\<close> (here \<^const>\<open>None\<close>) when
  there is no digit. The result is kept as an exact integer, where the source has the
  nearest double: integers beyond 2^53 that a double cannot tell apart are different here.
\<close>

definition parseDigits :: "string \<Rightarrow> int option" where
  "parseDigits s =
     (case s of
        c0 # x # r \<Rightarrow>
          (if code c0 = 48 \<and> (code x = 120 \<or> code x = 88)
           then (let z = takeWhile isHexDigit r
                 in if z = [] then None else Some (int (digitsVal 16 z)))
           else (let z = takeWhile isDigit s
                 in if z = [] then None else Some (int (digitsVal 10 z))))
      | _ \<Rightarrow>
          (let z = takeWhile isDigit s
           in if z = [] then None else Some (int (digitsVal 10 z))))"

definition parseInt :: "string \<Rightarrow> int option" where
  "parseInt str =
     (case dropWhile isWhiteSpace str of
        [] \<Rightarrow> None
      | c # r \<Rightarrow>
          (if code c = 45 then map_option uminus (parseDigits r)
           else if code c = 43 then parseDigits r
           else parseDigits (c # r)))"

subsection \<open>JSON.parse\<close>

text \<open>
  A parsed number \<open>JNumber m e\<close> stands for the decimal \<open>m \<times> 10\<^sup>e\<close> as written in the
  text; the rounding to a double is not part of the model, so a literal such as
  \<^verbatim>\<open>1.0000000000000001\<close> (the double 1) or \<^verbatim>\<open>1e400\<close> (Infinity) is read differently from the
  source. String contents are kept as code units.
\<close>

datatype json =
    JNull
  | JBool bool
  | JNumber int int
  | JString "nat list"
  | JArray "json list"
  | JObject "(nat list \<times> json) list"

datatype token =
    TLBracket | TRBracket | TLBrace | TRBrace | TComma | TColon
  | TTrue | TFalse | TNull
  | TNum int int
  | TStr "nat list"

text \<open>The characters of a string literal after the opening quote, up to the closing one.\<close>

fun lexString :: "string \<Rightarrow> (nat list \<times> string) option" where
  "lexString [] = None"
| "lexString (c # cs) =
     (if code c = 34 then Some ([], cs)
      else if code c = 92 then
        (case cs of
           [] \<Rightarrow> None
         | e # r \<Rightarrow>
             (if code e = 117 then
                (case r of
                   h1 # h2 # h3 # h4 # r' \<Rightarrow>
                     (if isHexDigit h1 \<and> isHexDigit h2 \<and> isHexDigit h3 \<and> isHexDigit h4
                      then map_option (\<lambda>(v, rest). (digitsVal 16 [h1, h2, h3, h4] # v, rest))
                             (lexString r')
                      else None)
                 | _ \<Rightarrow> None)
              else
                (case (if code e = 34 then Some 34
                       else if code e = 92 then Some 92
                       else if code e = 47 then Some 47
                       else if code e = 98 then Some 8
                       else if code e = 102 then Some 12
                       else if code e = 110 then Some 10
                       else if code e = 114 then Some 13
                       else if code e = 116 then Some 9
                       else None) of
                   None \<Rightarrow> None
                 | Some u \<Rightarrow> map_option (\<lambda>(v, rest). (u # v, rest)) (lexString r))))
      else if code c < 32 then None
      else map_option (\<lambda>(v, rest). (code c # v, rest)) (lexString cs))"

text \<open>
  The number grammar: \<^verbatim>\<open>-? (0 | [1-9][0-9]*) (. [0-9]+)? ([eE] [+-]? [0-9]+)?\<close>. The
  argument starts at the first digit; the sign is applied by the caller. A fraction or
  exponent that is not complete is left in the rest, where no token can start.
\<close>

definition lexExponent :: "string \<Rightarrow> int \<times> string" where
  "lexExponent s =
     (case s of
        [] \<Rightarrow> (0, s)
      | c # r \<Rightarrow>
          (if code c = 101 \<or> code c = 69 then
             (case r of
                [] \<Rightarrow> (0, s)
              | g # r' \<Rightarrow>
                  (if code g = 45 \<or> code g = 43 then
                     (let ds = takeWhile isDigit r'
                      in if ds = [] then (0, s)
                         else ((if code g = 45 then - int (digitsVal 10 ds) else int (digitsVal 10 ds)),
                               dropWhile isDigit r'))
                   else
                     (let ds = takeWhile isDigit r
                      in if ds = [] then (0, s)
                         else (int (digitsVal 10 ds), dropWhile isDigit r))))
           else (0, s)))"

definition lexFraction :: "string \<Rightarrow> string \<times> string" where
  "lexFraction s =
     (case s of
        [] \<Rightarrow> ([], s)
      | c # r \<Rightarrow>
          (if code c = 46 \<and> takeWhile isDigit r \<noteq> []
           then (takeWhile isDigit r, dropWhile isDigit r)
           else ([], s)))"

definition lexNumber :: "string \<Rightarrow> ((int \<times> int) \<times> string) option" where
  "lexNumber s =
     (case s of
        [] \<Rightarrow> None
      | c # r \<Rightarrow>
          (if \<not> isDigit c then None
           else
             (let ip = (if code c = 48 then [c] else c # takeWhile isDigit r);
                  r1 = (if code c = 48 then r else dropWhile isDigit r);
                  (fp, r2) = lexFraction r1;
                  (ex, r3) = lexExponent r2
              in Some ((int (digitsVal 10 (ip @ fp)), ex - int (length fp)), r3))))"

text \<open>\<open>stripPrefix p s\<close> removes the literal \<open>p\<close> from the front of \<open>s\<close>.\<close>

fun stripPrefix :: "string \<Rightarrow> string \<Rightarrow> string option" where
  "stripPrefix [] s = Some s"
| "stripPrefix (p # ps) [] = None"
| "stripPrefix (p # ps) (c # cs) = (if p = c then stripPrefix ps cs else None)"

text \<open>
  The tokens of a JSON text. White space between tokens is TAB, LF, CR and SP only.
  \<^const>\<open>None\<close> is a \<^verbatim>\<open>SyntaxError\<close>.
\<close>

function tokenize :: "string \<Rightarrow> token list option" where
  "tokenize [] = Some []"
| "tokenize (c # cs) =
     (if code c = 32 \<or> code c = 9 \<or> code c = 10 \<or> code c = 13 then tokenize cs
      else if code c = 91 then map_option (Cons TLBracket) (tokenize cs)
      else if code c = 93 then map_option (Cons TRBracket) (tokenize cs)
      else if code c = 123 then map_option (Cons TLBrace) (tokenize cs)
      else if code c = 125 then map_option (Cons TRBrace) (tokenize cs)
      else if code c = 44 then map_option (Cons TComma) (tokenize cs)
      else if code c = 58 then map_option (Cons TColon) (tokenize cs)
      else if code c = 34 then
        (case lexString cs of
           None \<Rightarrow> None
         | Some (v, r) \<Rightarrow> map_option (Cons (TStr v)) (tokenize r))
      else if code c = 45 then
        (case lexNumber cs of
           None \<Rightarrow> None
         | Some ((m, e), r) \<Rightarrow> map_option (Cons (TNum (- m) e)) (tokenize r))
      else if isDigit c then
        (case lexNumber (c # cs) of
           None \<Rightarrow> None
         | Some ((m, e), r) \<Rightarrow> map_option (Cons (TNum m e)) (tokenize r))
      else if code c = 116 then
        (case stripPrefix ''rue'' cs of
           None \<Rightarrow> None
         | Some r \<Rightarrow> map_option (Cons TTrue) (tokenize r))
      else if code c = 102 then
        (case stripPrefix ''alse'' cs of
           None \<Rightarrow> None
         | Some r \<Rightarrow> map_option (Cons TFalse) (tokenize r))
      else if code c = 110 then
        (case stripPrefix ''ull'' cs of
           None \<Rightarrow> None
         | Some r \<Rightarrow> map_option (Cons TNull) (tokenize r))
      else None)"
  by pat_completeness auto
termination
proof -
  have str: "length r \<le> length s" if "lexString s = Some (v, r)" for s v r
    using that
  proof (induction s arbitrary: v r rule: length_induct)
    case (1 s)
    show ?case
    proof (cases s)
      case Nil
      with 1 show ?thesis by simp
    next
      case (Cons c cs)
      have IH: "\<And>t v' r'. length t < length s \<Longrightarrow> lexString t = Some (v', r')
                  \<Longrightarrow> length r' \<le> length t"
        using "1.IH" by blast
      from "1.prems" show ?thesis
        unfolding Cons lexString.simps
        by (auto split: if_splits list.splits option.splits dest!: IH [unfolded Cons, rotated])
    qed
  qed
  have frac: "length (snd (lexFraction s)) \<le> length s" for s
    by (auto simp: lexFraction_def split: list.splits
             intro: le_trans [OF length_dropWhile_le])
  have expo: "length (snd (lexExponent s)) \<le> length s" for s
    by (auto simp: lexExponent_def Let_def split: list.splits
             intro: le_trans [OF length_dropWhile_le])
  have num: "length r < length s" if "lexNumber s = Some (x, r)" for s x r
  proof -
    from that obtain c t where s: "s = c # t" and d: "isDigit c"
      by (auto simp: lexNumber_def split: list.splits if_splits)
    define r1 where "r1 = (if code c = 48 then t else dropWhile isDigit t)"
    have r1: "length r1 \<le> length t"
      by (simp add: r1_def length_dropWhile_le)
    have "r = snd (lexExponent (snd (lexFraction r1)))"
      using that d by (auto simp: lexNumber_def s r1_def Let_def split: prod.splits)
    then have "length r \<le> length r1"
      using expo [of "snd (lexFraction r1)"] frac [of r1] by simp
    with r1 show ?thesis by (simp add: s)
  qed
  have pre: "length r \<le> length s" if "stripPrefix p s = Some r" for p s r
    using that by (induction p s rule: stripPrefix.induct) (auto split: if_splits)
  show ?thesis
    by (relation "measure length")
       (auto dest: str num pre simp: less_Suc_eq_le intro: less_imp_le)
qed

text \<open>
  The grammar is run over the tokens with a stack of the containers that are still
  open: \<open>InArray\<close> holds the elements read so far, \<open>InObject\<close> the members, \<open>InMember\<close> the
  members and the key whose value is being read.
\<close>

datatype frame =
    InArray "json list"
  | InObject "(nat list \<times> json) list"
  | InMember "(nat list \<times> json) list" "nat list"

datatype mode =
    WantValue | WantValueOrEnd | WantKeyOrEnd | WantKey | WantColon | WantCommaOrEnd
  | Finished json

text \<open>A complete value goes to the innermost open container, or ends the text.\<close>

fun deliver :: "json \<Rightarrow> frame list \<Rightarrow> (frame list \<times> mode) option" where
  "deliver v [] = Some ([], Finished v)"
| "deliver v (InArray xs # st) = Some (InArray (xs @ [v]) # st, WantCommaOrEnd)"
| "deliver v (InMember kvs k # st) = Some (InObject (kvs @ [(k, v)]) # st, WantCommaOrEnd)"
| "deliver v (InObject kvs # st) = None"

fun scalar :: "token \<Rightarrow> json option" where
  "scalar TTrue = Some (JBool True)"
| "scalar TFalse = Some (JBool False)"
| "scalar TNull = Some JNull"
| "scalar (TNum m e) = Some (JNumber m e)"
| "scalar (TStr v) = Some (JString v)"
| "scalar _ = None"

fun closeArray :: "frame list \<Rightarrow> (frame list \<times> mode) option" where
  "closeArray (InArray xs # st) = deliver (JArray xs) st"
| "closeArray _ = None"

fun closeObject :: "frame list \<Rightarrow> (frame list \<times> mode) option" where
  "closeObject (InObject kvs # st) = deliver (JObject kvs) st"
| "closeObject _ = None"

fun startValue :: "frame list \<Rightarrow> token \<Rightarrow> (frame list \<times> mode) option" where
  "startValue st TLBracket = Some (InArray [] # st, WantValueOrEnd)"
| "startValue st TLBrace = Some (InObject [] # st, WantKeyOrEnd)"
| "startValue st t = (case scalar t of None \<Rightarrow> None | Some v \<Rightarrow> deliver v st)"

fun startKey :: "frame list \<Rightarrow> token \<Rightarrow> (frame list \<times> mode) option" where
  "startKey (InObject kvs # st) (TStr k) = Some (InMember kvs k # st, WantColon)"
| "startKey _ _ = None"

fun afterValue :: "frame list \<Rightarrow> token \<Rightarrow> (frame list \<times> mode) option" where
  "afterValue (InArray xs # st) TComma = Some (InArray xs # st, WantValue)"
| "afterValue (InObject kvs # st) TComma = Some (InObject kvs # st, WantKey)"
| "afterValue st TRBracket = closeArray st"
| "afterValue st TRBrace = closeObject st"
| "afterValue _ _ = None"

fun step :: "frame list \<times> mode \<Rightarrow> token \<Rightarrow> (frame list \<times> mode) option" where
  "step (st, WantValue) t = startValue st t"
| "step (st, WantValueOrEnd) t = (if t = TRBracket then closeArray st else startValue st t)"
| "step (st, WantKeyOrEnd) t = (if t = TRBrace then closeObject st else startKey st t)"
| "step (st, WantKey) t = startKey st t"
| "step (st, WantColon) t = (if t = TColon then Some (st, WantValue) else None)"
| "step (st, WantCommaOrEnd) t = afterValue st t"
| "step (st, Finished v) t = None"

fun run :: "frame list \<times> mode \<Rightarrow> token list \<Rightarrow> (frame list \<times> mode) option" where
  "run s [] = Some s"
| "run s (t # ts) = (case step s t of None \<Rightarrow> None | Some s' \<Rightarrow> run s' ts)"

text \<open>\<^verbatim>\<open>JSON.parse(text)\<close>: the value, or \<^const>\<open>None\<close> where it throws.\<close>

definition JSON_parse :: "string \<Rightarrow> json option" where
  "JSON_parse text =
     (case tokenize text of
        None \<Rightarrow> None
      | Some ts \<Rightarrow>
          (case run ([], WantValue) ts of
             Some ([], Finished v) \<Rightarrow> Some v
           | _ \<Rightarrow> None))"

fun Array_isArray :: "json \<Rightarrow> bool" where
  "Array_isArray (JArray xs) = True"
| "Array_isArray _ = False"

text \<open>\<^verbatim>\<open>Number.isInteger(v)\<close> and \<^verbatim>\<open>v < 1\<close> on a parsed value; the latter is only
  evaluated by the source where the former holds, so on numbers.\<close>

fun Number_isInteger :: "json \<Rightarrow> bool" where
  "Number_isInteger (JNumber m e) = (if 0 \<le> e then True else m mod 10 ^ nat (- e) = 0)"
| "Number_isInteger _ = False"

fun lessThanOne :: "json \<Rightarrow> bool" where
  "lessThanOne (JNumber m e) = (if 0 \<le> e then m * 10 ^ nat e < 1 else m < 10 ^ nat (- e))"
| "lessThanOne _ = False"

section \<open>The data model\<close>

text \<open>
  The entity interfaces and the finding type of the repository. A \<^verbatim>\<open>number\<close> field is an
  \<^typ>\<open>int\<close>, as the upload path leaves it (\<^verbatim>\<open>parseInt(..) || 1\<close>).
\<close>

record Client =
  ClientID :: string
  ClientName :: string
  PriorityLevel :: int
  RequestedTaskIDs :: string
  GroupTag :: string
  AttributesJSON :: string

record Worker =
  WorkerID :: string
  WorkerName :: string
  Skills :: string
  AvailableSlots :: string
  MaxLoadPerPhase :: int
  WorkerGroup :: string
  QualificationLevel :: int

record Task =
  TaskID :: string
  TaskName :: string
  Category :: string
  Duration :: int
  RequiredSkills :: string
  PreferredPhases :: string
  MaxConcurrent :: int

datatype severity = Error | Warning

record ValidationError =
  type :: string
  message :: string
  row :: "nat option"
  column :: "string option"
  entity :: "string option"
  severity :: severity

text \<open>The object literal every \<^verbatim>\<open>errors.push\<close> of the validators builds.\<close>

definition finding ::
  "string \<Rightarrow> string \<Rightarrow> nat \<Rightarrow> string \<Rightarrow> string \<Rightarrow> severity \<Rightarrow> ValidationError" where
  "finding ty msg index col ent sev =
     \<lparr>type = ty, message = msg, row = Some index, column = Some col, entity = Some ent,
      severity = sev\<rparr>"

section \<open>ValidationService\<close>

subsection \<open>validateClients\<close>

text \<open>
  The body of the \<^verbatim>\<open>forEach\<close> callback for one row: \<open>clientIds\<close> is the set of identifiers
  of the rows before it, the result is what the row pushes, in order.
\<close>

definition validateClient :: "string set \<Rightarrow> string set \<Rightarrow> nat \<Rightarrow> Client \<Rightarrow> ValidationError list" where
  "validateClient taskIds clientIds index client =
     (if ClientID client \<in> clientIds
      then [finding ''duplicate_id'' (''Duplicate ClientID: '' @ ClientID client) index
              ''ClientID'' ''clients'' Error]
      else [])
     @ (if ClientID client = []
        then [finding ''missing_required'' ''ClientID is required'' index
                ''ClientID'' ''clients'' Error]
        else [])
     @ (if ClientName client = []
        then [finding ''missing_required'' ''ClientName is required'' index
                ''ClientName'' ''clients'' Error]
        else [])
     @ (if PriorityLevel client < 1 \<or> PriorityLevel client > 5
        then [finding ''out_of_range'' ''PriorityLevel must be between 1 and 5'' index
                ''PriorityLevel'' ''clients'' Error]
        else [])
     @ (if RequestedTaskIDs client \<noteq> []
        then concat (map (\<lambda>taskId.
               if taskId \<noteq> [] \<and> taskId \<notin> taskIds
               then [finding ''unknown_reference''
                       (''RequestedTaskID '' @ taskId @ '' does not exist in tasks'') index
                       ''RequestedTaskIDs'' ''clients'' Error]
               else [])
             (map trim (split CHR '','' (RequestedTaskIDs client))))
        else [])
     @ (if AttributesJSON client \<noteq> []
        then (case JSON_parse (AttributesJSON client) of
                None \<Rightarrow> [finding ''malformed_json'' ''Invalid JSON in AttributesJSON'' index
                           ''AttributesJSON'' ''clients'' Error]
              | Some v \<Rightarrow> [])
        else [])"

fun validateClients_loop ::
  "string set \<Rightarrow> string set \<Rightarrow> nat \<Rightarrow> Client list \<Rightarrow> ValidationError list" where
  "validateClients_loop taskIds clientIds index [] = []"
| "validateClients_loop taskIds clientIds index (client # rest) =
     validateClient taskIds clientIds index client
     @ validateClients_loop taskIds (insert (ClientID client) clientIds) (Suc index) rest"

definition validateClients :: "Client list \<Rightarrow> Task list \<Rightarrow> ValidationError list" where
  "validateClients clients tasks = validateClients_loop (set (map TaskID tasks)) {} 0 clients"

subsection \<open>validateWorkers\<close>

text \<open>The \<^verbatim>\<open>catch\<close> branch of the slots check: the comma-separated reading.\<close>

definition slotsCommaSeparated :: "nat \<Rightarrow> string \<Rightarrow> ValidationError list" where
  "slotsCommaSeparated index availableSlots =
     concat (map (\<lambda>slotStr.
       (case parseInt slotStr of
          None \<Rightarrow> [finding ''malformed_list'' ''AvailableSlots contains invalid numbers'' index
                     ''AvailableSlots'' ''workers'' Error]
        | Some slot \<Rightarrow>
            (if slot < 1
             then [finding ''malformed_list'' ''AvailableSlots contains invalid numbers'' index
                     ''AvailableSlots'' ''workers'' Error]
             else [])))
       (map trim (split CHR '','' availableSlots)))"

definition checkAvailableSlots :: "nat \<Rightarrow> string \<Rightarrow> ValidationError list" where
  "checkAvailableSlots index availableSlots =
     (if availableSlots \<noteq> [] then
        (case JSON_parse availableSlots of
           Some slots \<Rightarrow>
             (case slots of
                JArray elems \<Rightarrow>
                  concat (map (\<lambda>slot.
                    if \<not> Number_isInteger slot \<or> lessThanOne slot
                    then [finding ''out_of_range'' ''AvailableSlots must contain positive integers''
                            index ''AvailableSlots'' ''workers'' Error]
                    else []) elems)
              | _ \<Rightarrow> [finding ''malformed_list'' ''AvailableSlots must be an array'' index
                        ''AvailableSlots'' ''workers'' Error])
         | None \<Rightarrow> slotsCommaSeparated index availableSlots)
      else [])"

definition validateWorker :: "string set \<Rightarrow> nat \<Rightarrow> Worker \<Rightarrow> ValidationError list" where
  "validateWorker workerIds index worker =
     (if WorkerID worker \<in> workerIds
      then [finding ''duplicate_id'' (''Duplicate WorkerID: '' @ WorkerID worker) index
              ''WorkerID'' ''workers'' Error]
      else [])
     @ (if WorkerID worker = []
        then [finding ''missing_required'' ''WorkerID is required'' index
                ''WorkerID'' ''workers'' Error]
        else [])
     @ (if WorkerName worker = []
        then [finding ''missing_required'' ''WorkerName is required'' index
                ''WorkerName'' ''workers'' Error]
        else [])
     @ checkAvailableSlots index (AvailableSlots worker)
     @ (if MaxLoadPerPhase worker < 1
        then [finding ''out_of_range'' ''MaxLoadPerPhase must be at least 1'' index
                ''MaxLoadPerPhase'' ''workers'' Error]
        else [])"

fun validateWorkers_loop :: "string set \<Rightarrow> nat \<Rightarrow> Worker list \<Rightarrow> ValidationError list" where
  "validateWorkers_loop workerIds index [] = []"
| "validateWorkers_loop workerIds index (worker # rest) =
     validateWorker workerIds index worker
     @ validateWorkers_loop (insert (WorkerID worker) workerIds) (Suc index) rest"

definition validateWorkers :: "Worker list \<Rightarrow> ValidationError list" where
  "validateWorkers workers = validateWorkers_loop {} 0 workers"

subsection \<open>validateTasks\<close>

text \<open>
  The \<^verbatim>\<open>catch\<close> branch of the phases check, entered when \<^verbatim>\<open>JSON.parse\<close> throws and when
  the parsed value is not an array. In the destructuring \<^verbatim>\<open>[start, end]\<close> a missing
  element is \<^verbatim>\<open>undefined\<close>, for which \<^verbatim>\<open>isNaN\<close> holds.
\<close>

definition phasesRangeOrList :: "nat \<Rightarrow> string \<Rightarrow> ValidationError list" where
  "phasesRangeOrList index preferredPhases =
     (if includes_char preferredPhases CHR ''-'' then
        (case map (\<lambda>s. parseInt (trim s)) (split CHR ''-'' preferredPhases) of
           Some start # Some end # others \<Rightarrow>
             (if start > end
              then [finding ''malformed_list'' ''PreferredPhases range is invalid'' index
                      ''PreferredPhases'' ''tasks'' Error]
              else [])
         | _ \<Rightarrow> [finding ''malformed_list'' ''PreferredPhases range is invalid'' index
                   ''PreferredPhases'' ''tasks'' Error])
      else
        (if list_ex (\<lambda>p. case p of None \<Rightarrow> True | Some n \<Rightarrow> n < 1)
              (map (\<lambda>p. parseInt (trim p)) (split CHR '','' preferredPhases))
         then [finding ''malformed_list'' ''PreferredPhases contains invalid phase numbers'' index
                 ''PreferredPhases'' ''tasks'' Error]
         else []))"

definition checkPreferredPhases :: "nat \<Rightarrow> string \<Rightarrow> ValidationError list" where
  "checkPreferredPhases index preferredPhases =
     (if preferredPhases \<noteq> [] then
        (case JSON_parse preferredPhases of
           Some phases \<Rightarrow>
             (if \<not> Array_isArray phases then phasesRangeOrList index preferredPhases else [])
         | None \<Rightarrow> phasesRangeOrList index preferredPhases)
      else [])"

definition validateTask :: "string set \<Rightarrow> nat \<Rightarrow> Task \<Rightarrow> ValidationError list" where
  "validateTask taskIds index task =
     (if TaskID task \<in> taskIds
      then [finding ''duplicate_id'' (''Duplicate TaskID: '' @ TaskID task) index
              ''TaskID'' ''tasks'' Error]
      else [])
     @ (if TaskID task = []
        then [finding ''missing_required'' ''TaskID is required'' index
                ''TaskID'' ''tasks'' Error]
        else [])
     @ (if TaskName task = []
        then [finding ''missing_required'' ''TaskName is required'' index
                ''TaskName'' ''tasks'' Error]
        else [])
     @ (if Duration task < 1
        then [finding ''out_of_range'' ''Duration must be at least 1'' index
                ''Duration'' ''tasks'' Error]
        else [])
     @ (if MaxConcurrent task < 1
        then [finding ''out_of_range'' ''MaxConcurrent must be at least 1'' index
                ''MaxConcurrent'' ''tasks'' Error]
        else [])
     @ checkPreferredPhases index (PreferredPhases task)"

fun validateTasks_loop :: "string set \<Rightarrow> nat \<Rightarrow> Task list \<Rightarrow> ValidationError list" where
  "validateTasks_loop taskIds index [] = []"
| "validateTasks_loop taskIds index (task # rest) =
     validateTask taskIds index task
     @ validateTasks_loop (insert (TaskID task) taskIds) (Suc index) rest"

definition validateTasks :: "Task list \<Rightarrow> ValidationError list" where
  "validateTasks tasks = validateTasks_loop {} 0 tasks"

subsection \<open>validateCrossReferences\<close>

fun allWorkerSkills :: "string set \<Rightarrow> Worker list \<Rightarrow> string set" where
  "allWorkerSkills acc [] = acc"
| "allWorkerSkills acc (worker # rest) =
     allWorkerSkills
       (if Skills worker \<noteq> []
        then fold (\<lambda>skill a. insert (toLowerCase (trim skill)) a)
               (split CHR '','' (Skills worker)) acc
        else acc)
       rest"

definition skillCoverage :: "string set \<Rightarrow> nat \<Rightarrow> Task \<Rightarrow> ValidationError list" where
  "skillCoverage workerSkills index task =
     (if RequiredSkills task \<noteq> []
      then concat (map (\<lambda>skill.
             if skill \<noteq> [] \<and> skill \<notin> workerSkills
             then [finding ''skill_coverage'' (''No worker has required skill: '' @ skill) index
                     ''RequiredSkills'' ''tasks'' Warning]
             else [])
           (map (\<lambda>s. toLowerCase (trim s)) (split CHR '','' (RequiredSkills task))))
      else [])"

fun skillCoverage_loop :: "string set \<Rightarrow> nat \<Rightarrow> Task list \<Rightarrow> ValidationError list" where
  "skillCoverage_loop workerSkills index [] = []"
| "skillCoverage_loop workerSkills index (task # rest) =
     skillCoverage workerSkills index task @ skillCoverage_loop workerSkills (Suc index) rest"

definition validateCrossReferences ::
  "Client list \<Rightarrow> Worker list \<Rightarrow> Task list \<Rightarrow> ValidationError list" where
  "validateCrossReferences clients workers tasks =
     skillCoverage_loop (allWorkerSkills {} workers) 0 tasks"

subsection \<open>validateAll\<close>

definition validateAll :: "Client list \<Rightarrow> Worker list \<Rightarrow> Task list \<Rightarrow> ValidationError list" where
  "validateAll clients workers tasks =
     validateClients clients tasks
     @ validateWorkers workers
     @ validateTasks tasks
     @ validateCrossReferences clients workers tasks"

section \<open>The page component: apply-fix and the export gate\<close>

text \<open>
  The three collections are arrays of row objects. A row object lives in the heap at an
  address and maps field names to values; an array is the list of the addresses of its
  rows, so that two arrays can share their rows, as \<^verbatim>\<open>[...clients]\<close> and \<^verbatim>\<open>clients\<close> do.
\<close>

type_synonym addr = nat

type_synonym 'v row_object = "string \<Rightarrow> 'v option"

typedecl Rule

typedecl Priority

record 'v Home =
  clients :: "addr list"
  workers :: "addr list"
  tasks :: "addr list"
  validationErrors :: "ValidationError list"
  rules :: "Rule list"
  priorities :: "Priority list"
  heap :: "addr \<Rightarrow> 'v row_object"

text \<open>The rows of an array as values, read through a heap.\<close>

definition rows :: "(addr \<Rightarrow> 'v row_object) \<Rightarrow> addr list \<Rightarrow> 'v row_object list" where
  "rows h arr = map h arr"

text \<open>\<^verbatim>\<open>obj[field] = newValue\<close> on the object at address \<open>a\<close>.\<close>

definition assignField ::
  "addr \<Rightarrow> string \<Rightarrow> 'v \<Rightarrow> (addr \<Rightarrow> 'v row_object) \<Rightarrow> (addr \<Rightarrow> 'v row_object)" where
  "assignField a field newValue h = h(a := (h a)(field \<mapsto> newValue))"

datatype exception = TypeError

text \<open>
  \<^verbatim>\<open>handleApplyFix\<close>: \<open>newData\<close> is the spread copy of the array (the same addresses), the
  assignment goes to the row object \<^verbatim>\<open>newData[rowIndex]\<close>, which is \<^verbatim>\<open>undefined\<close> out of
  range, where assigning a property throws. An entity tag other than the three leaves
  the state as it is.
\<close>

definition handleApplyFix ::
  "string \<Rightarrow> nat \<Rightarrow> string \<Rightarrow> 'v \<Rightarrow> 'v Home \<Rightarrow> exception + 'v Home" where
  "handleApplyFix entityType rowIndex field newValue st =
     (if entityType = ''clients'' then
        (let newData = clients st
         in if rowIndex < length newData
            then Inr (st\<lparr>heap := assignField (newData ! rowIndex) field newValue (heap st),
                         clients := newData\<rparr>)
            else Inl TypeError)
      else if entityType = ''workers'' then
        (let newData = workers st
         in if rowIndex < length newData
            then Inr (st\<lparr>heap := assignField (newData ! rowIndex) field newValue (heap st),
                         workers := newData\<rparr>)
            else Inl TypeError)
      else if entityType = ''tasks'' then
        (let newData = tasks st
         in if rowIndex < length newData
            then Inr (st\<lparr>heap := assignField (newData ! rowIndex) field newValue (heap st),
                         tasks := newData\<rparr>)
            else Inl TypeError)
      else Inr st)"

definition canExport :: "'v Home \<Rightarrow> bool" where
  "canExport st =
     (let hasData = (length (clients st) > 0 \<and> length (workers st) > 0 \<and> length (tasks st) > 0);
          hasNoErrors = (length (filter (\<lambda>e. severity e = Error) (validationErrors st)) = 0)
      in hasData \<and> hasNoErrors)"

datatype effect =
    Alert string
  | ExportToCSV "addr list" string
  | ExportRulesToJSON "Rule list" "Priority list"

definition handleExport :: "'v Home \<Rightarrow> effect list" where
  "handleExport st =
     (if \<not> canExport st
      then [Alert ''Please fix all validation errors before exporting.'']
      else [ExportToCSV (clients st) ''clients.csv'',
            ExportToCSV (workers st) ''workers.csv'',
            ExportToCSV (tasks st) ''tasks.csv'',
            ExportRulesToJSON (rules st) (priorities st),
            Alert ''Files exported successfully! Check your downloads folder.''])"

section \<open>Sample data and vocabulary of the properties\<close>

text \<open>The rows of \<^verbatim>\<open>DataService.generateSampleData\<close>.\<close>

definition sampleClients :: "Client list" where
  "sampleClients =
     [\<lparr>ClientID = ''C001'', ClientName = ''Acme Corp'', PriorityLevel = 3,
       RequestedTaskIDs = ''T001,T002'', GroupTag = ''Enterprise'',
       AttributesJSON = ''{\"budget\": 100000, \"deadline\": \"2024-12-31\"}''\<rparr>,
      \<lparr>ClientID = ''C002'', ClientName = ''TechStart Inc'', PriorityLevel = 5,
       RequestedTaskIDs = ''T003'', GroupTag = ''Startup'',
       AttributesJSON = ''{\"budget\": 50000, \"priority\": \"high\"}''\<rparr>]"

definition sampleWorkers :: "Worker list" where
  "sampleWorkers =
     [\<lparr>WorkerID = ''W001'', WorkerName = ''John Doe'', Skills = ''JavaScript,React,Node.js'',
       AvailableSlots = ''[1,2,3]'', MaxLoadPerPhase = 2, WorkerGroup = ''Frontend'',
       QualificationLevel = 3\<rparr>,
      \<lparr>WorkerID = ''W002'', WorkerName = ''Jane Smith'', Skills = ''Python,Django,PostgreSQL'',
       AvailableSlots = ''[2,3,4]'', MaxLoadPerPhase = 3, WorkerGroup = ''Backend'',
       QualificationLevel = 4\<rparr>,
      \<lparr>WorkerID = ''W003'', WorkerName = ''Bob Johnson'', Skills = ''Java,Spring,MySQL'',
       AvailableSlots = ''[1,3,5]'', MaxLoadPerPhase = 2, WorkerGroup = ''Backend'',
       QualificationLevel = 3\<rparr>]"

definition sampleTasks :: "Task list" where
  "sampleTasks =
     [\<lparr>TaskID = ''T001'', TaskName = ''Frontend Development'', Category = ''Development'',
       Duration = 2, RequiredSkills = ''JavaScript,React'', PreferredPhases = ''[1,2]'',
       MaxConcurrent = 2\<rparr>,
      \<lparr>TaskID = ''T002'', TaskName = ''Backend API'', Category = ''Development'',
       Duration = 3, RequiredSkills = ''Python,Django'', PreferredPhases = ''2-4'',
       MaxConcurrent = 1\<rparr>,
      \<lparr>TaskID = ''T003'', TaskName = ''Database Design'', Category = ''Architecture'',
       Duration = 1, RequiredSkills = ''MySQL,PostgreSQL'', PreferredPhases = ''[1]'',
       MaxConcurrent = 1\<rparr>]"

text \<open>The row indices at which \<open>v\<close> occurs in \<open>xs\<close>, in increasing order.\<close>

definition occurrences :: "'a \<Rightarrow> 'a list \<Rightarrow> nat list" where
  "occurrences v xs = filter (\<lambda>j. xs ! j = v) [0..<length xs]"

text \<open>A \<^verbatim>\<open>duplicate_id\<close> finding for the value \<open>v\<close> of the identifier column \<open>idColumn\<close>.\<close>

definition isDuplicateOf :: "string \<Rightarrow> string \<Rightarrow> ValidationError \<Rightarrow> bool" where
  "isDuplicateOf idColumn v e =
     (type e = ''duplicate_id'' \<and> message e = ''Duplicate '' @ idColumn @ '': '' @ v)"

text \<open>The findings on one cell, and the findings of one kind on one row.\<close>

definition findingsAt :: "nat \<Rightarrow> string \<Rightarrow> ValidationError list \<Rightarrow> ValidationError list" where
  "findingsAt i col es = filter (\<lambda>e. row e = Some i \<and> column e = Some col) es"

definition findingsOfType :: "nat \<Rightarrow> string \<Rightarrow> ValidationError list \<Rightarrow> ValidationError list" where
  "findingsOfType i ty es = filter (\<lambda>e. row e = Some i \<and> type e = ty) es"

text \<open>The array of the state that an entity tag names.\<close>

definition collection :: "string \<Rightarrow> 'v Home \<Rightarrow> addr list" where
  "collection entityType st =
     (if entityType = ''clients'' then clients st
      else if entityType = ''workers'' then workers st
      else tasks st)"

text \<open>
  A state of the page with the two sample clients at addresses 0 and 1, one worker, one
  task and a finding list of one warning; the field values are kept as strings.
\<close>

definition sampleHeap :: "addr \<Rightarrow> string row_object" where
  "sampleHeap =
     (\<lambda>a. Map.empty)
       (0 := [''ClientID'' \<mapsto> ''C001'', ''ClientName'' \<mapsto> ''Acme Corp''],
        1 := [''ClientID'' \<mapsto> ''C002'', ''ClientName'' \<mapsto> ''TechStart Inc''],
        2 := [''WorkerID'' \<mapsto> ''W001'', ''WorkerName'' \<mapsto> ''John Doe''],
        3 := [''TaskID'' \<mapsto> ''T001'', ''TaskName'' \<mapsto> ''Frontend Development''])"

definition sampleHome :: "string Home" where
  "sampleHome =
     \<lparr>clients = [0, 1], workers = [2], tasks = [3],
      validationErrors =
        [finding ''skill_coverage'' ''No worker has required skill: rust'' 0
           ''RequiredSkills'' ''tasks'' Warning],
      rules = [], priorities = [], heap = sampleHeap\<rparr>"

section \<open>Basic facts\<close>

lemma finding_sel [simp]:
  "type (finding ty msg i col ent sev) = ty"
  "message (finding ty msg i col ent sev) = msg"
  "row (finding ty msg i col ent sev) = Some i"
  "column (finding ty msg i col ent sev) = Some col"
  "entity (finding ty msg i col ent sev) = Some ent"
  "severity (finding ty msg i col ent sev) = sev"
  by (simp_all add: finding_def)

lemma filter_concat_map_Nil:
  "(\<And>x y. x \<in> set xs \<Longrightarrow> y \<in> set (f x) \<Longrightarrow> \<not> P y) \<Longrightarrow> filter P (concat (map f xs)) = []"
  by (induction xs) (auto simp: filter_empty_conv)

lemma occurrences_Nil [simp]: "occurrences v [] = []"
  by (simp add: occurrences_def)

lemma occurrences_Cons:
  "occurrences v (x # xs) = (if x = v then [0] else []) @ map Suc (occurrences v xs)"
proof -
  have "[0..<length (x # xs)] = 0 # map Suc [0..<length xs]"
    by (simp add: upt_conv_Cons map_Suc_upt del: upt_Suc)
  then show ?thesis
    unfolding occurrences_def by (simp add: filter_map o_def del: upt_Suc)
qed

lemma length_occurrences: "length (occurrences v xs) = count_list xs v"
  by (induction xs) (simp_all add: occurrences_Cons)

section \<open>Duplicate identifiers\<close>

text \<open>
  One row pushes a duplicate finding for \<open>v\<close> exactly when its identifier is \<open>v\<close> and \<open>v\<close>
  has been seen in an earlier row.
\<close>

lemma validateClient_dup:
  "filter (isDuplicateOf ''ClientID'' v) (validateClient T S i c) =
   (if ClientID c = v \<and> v \<in> S
    then [finding ''duplicate_id'' (''Duplicate ClientID: '' @ v) i ''ClientID'' ''clients'' Error]
    else [])"
  by (auto simp: isDuplicateOf_def validateClient_def filter_concat_map_Nil split: option.splits)

lemma validateClients_loop_dup:
  "map row (filter (isDuplicateOf ''ClientID'' v) (validateClients_loop T S i cs)) =
   map (\<lambda>j. Some (i + j))
     (if v \<in> S then occurrences v (map ClientID cs) else tl (occurrences v (map ClientID cs)))"
proof (induction cs arbitrary: S i)
  case Nil
  show ?case by simp
next
  case (Cons c cs)
  show ?case
    by (simp add: validateClient_dup Cons.IH occurrences_Cons map_tl o_def)
qed

lemma validateWorker_dup:
  "filter (isDuplicateOf ''WorkerID'' v) (validateWorker S i w) =
   (if WorkerID w = v \<and> v \<in> S
    then [finding ''duplicate_id'' (''Duplicate WorkerID: '' @ v) i ''WorkerID'' ''workers'' Error]
    else [])"
  by (auto simp: isDuplicateOf_def validateWorker_def checkAvailableSlots_def
        slotsCommaSeparated_def filter_concat_map_Nil split: option.splits json.splits)

lemma validateWorkers_loop_dup:
  "map row (filter (isDuplicateOf ''WorkerID'' v) (validateWorkers_loop S i ws)) =
   map (\<lambda>j. Some (i + j))
     (if v \<in> S then occurrences v (map WorkerID ws) else tl (occurrences v (map WorkerID ws)))"
proof (induction ws arbitrary: S i)
  case Nil
  show ?case by simp
next
  case (Cons w ws)
  show ?case
    by (simp add: validateWorker_dup Cons.IH occurrences_Cons map_tl o_def)
qed

lemma validateTask_dup:
  "filter (isDuplicateOf ''TaskID'' v) (validateTask S i t) =
   (if TaskID t = v \<and> v \<in> S
    then [finding ''duplicate_id'' (''Duplicate TaskID: '' @ v) i ''TaskID'' ''tasks'' Error]
    else [])"
  by (auto simp: isDuplicateOf_def validateTask_def checkPreferredPhases_def
        phasesRangeOrList_def split: option.splits list.splits)

lemma validateTasks_loop_dup:
  "map row (filter (isDuplicateOf ''TaskID'' v) (validateTasks_loop S i ts)) =
   map (\<lambda>j. Some (i + j))
     (if v \<in> S then occurrences v (map TaskID ts) else tl (occurrences v (map TaskID ts)))"
proof (induction ts arbitrary: S i)
  case Nil
  show ?case by simp
next
  case (Cons t ts)
  show ?case
    by (simp add: validateTask_dup Cons.IH occurrences_Cons map_tl o_def)
qed

lemma length_from_rows:
  fixes xs :: "ValidationError list"
  assumes "map row xs = map Some (tl (occurrences v ids))"
  shows "length xs = count_list ids v - 1"
proof -
  have "length xs = length (map row xs)" by simp
  also have "\<dots> = length (occurrences v ids) - 1" unfolding assms by simp
  finally show ?thesis by (simp add: length_occurrences)
qed

text \<open>
  C1. In each of the three collections, the rows of the \<^verbatim>\<open>duplicate_id\<close> findings for an
  identifier value \<open>v\<close> are, in order, the rows where \<open>v\<close> occurs without the first one:
  the first occurrence is not flagged, every later one is flagged once with its own row
  index, and a value occurring \<open>k\<close> times has \<open>k - 1\<close> such findings.
\<close>

theorem duplicate_id_findings:
  "map row (filter (isDuplicateOf ''ClientID'' v) (validateClients cs ts))
     = map Some (tl (occurrences v (map ClientID cs)))
   \<and> length (filter (isDuplicateOf ''ClientID'' v) (validateClients cs ts))
     = count_list (map ClientID cs) v - 1
   \<and> map row (filter (isDuplicateOf ''WorkerID'' v) (validateWorkers ws))
     = map Some (tl (occurrences v (map WorkerID ws)))
   \<and> length (filter (isDuplicateOf ''WorkerID'' v) (validateWorkers ws))
     = count_list (map WorkerID ws) v - 1
   \<and> map row (filter (isDuplicateOf ''TaskID'' v) (validateTasks ts))
     = map Some (tl (occurrences v (map TaskID ts)))
   \<and> length (filter (isDuplicateOf ''TaskID'' v) (validateTasks ts))
     = count_list (map TaskID ts) v - 1"
proof -
  have c: "map row (filter (isDuplicateOf ''ClientID'' v) (validateClients cs ts))
     = map Some (tl (occurrences v (map ClientID cs)))"
    by (simp add: validateClients_def validateClients_loop_dup)
  have w: "map row (filter (isDuplicateOf ''WorkerID'' v) (validateWorkers ws))
     = map Some (tl (occurrences v (map WorkerID ws)))"
    by (simp add: validateWorkers_def validateWorkers_loop_dup)
  have t: "map row (filter (isDuplicateOf ''TaskID'' v) (validateTasks ts))
     = map Some (tl (occurrences v (map TaskID ts)))"
    by (simp add: validateTasks_def validateTasks_loop_dup)
  show ?thesis
    using c w t length_from_rows [OF c] length_from_rows [OF w] length_from_rows [OF t]
    by blast
qed

text \<open>
  Three of four sample clients share the identifier \<^verbatim>\<open>C001\<close> (rows 0, 2 and 3): rows 2
  and 3 are flagged, row 0 is not.
\<close>

theorem duplicate_id_findings_witness:
  "map row (filter (isDuplicateOf ''ClientID'' ''C001'')
      (validateClients
         [sampleClients ! 0, sampleClients ! 1, sampleClients ! 0, sampleClients ! 0]
         sampleTasks))
     = [Some 2, Some 3]
   \<and> length (filter (isDuplicateOf ''ClientID'' ''C001'')
      (validateClients
         [sampleClients ! 0, sampleClients ! 1, sampleClients ! 0, sampleClients ! 0]
         sampleTasks))
     = 2"
  using duplicate_id_findings
    [of "''C001''" "[sampleClients ! 0, sampleClients ! 1, sampleClients ! 0, sampleClients ! 0]"
        sampleTasks "[]"]
  by (simp add: occurrences_Cons sampleClients_def)

section \<open>Severities\<close>

lemma validateClient_severity:
  "e \<in> set (validateClient T S i c) \<Longrightarrow> severity e = Error \<and> type e \<noteq> ''skill_coverage''"
  by (auto simp: validateClient_def split: if_splits option.splits)

lemma validateClients_loop_severity:
  "e \<in> set (validateClients_loop T S i cs)
   \<Longrightarrow> severity e = Error \<and> type e \<noteq> ''skill_coverage''"
  by (induction cs arbitrary: S i) (auto dest: validateClient_severity)

lemma validateWorker_severity:
  "e \<in> set (validateWorker S i w) \<Longrightarrow> severity e = Error \<and> type e \<noteq> ''skill_coverage''"
  by (auto simp: validateWorker_def checkAvailableSlots_def slotsCommaSeparated_def
           split: if_splits option.splits json.splits)

lemma validateWorkers_loop_severity:
  "e \<in> set (validateWorkers_loop S i ws)
   \<Longrightarrow> severity e = Error \<and> type e \<noteq> ''skill_coverage''"
  by (induction ws arbitrary: S i) (auto dest: validateWorker_severity)

lemma validateTask_severity:
  "e \<in> set (validateTask S i t) \<Longrightarrow> severity e = Error \<and> type e \<noteq> ''skill_coverage''"
  by (auto simp: validateTask_def checkPreferredPhases_def phasesRangeOrList_def
           split: if_splits option.splits list.splits)

lemma validateTasks_loop_severity:
  "e \<in> set (validateTasks_loop S i ts)
   \<Longrightarrow> severity e = Error \<and> type e \<noteq> ''skill_coverage''"
  by (induction ts arbitrary: S i) (auto dest: validateTask_severity)

lemma skillCoverage_severity:
  "e \<in> set (skillCoverage K i t) \<Longrightarrow> severity e = Warning \<and> type e = ''skill_coverage''"
  by (auto simp: skillCoverage_def split: if_splits)

lemma skillCoverage_loop_severity:
  "e \<in> set (skillCoverage_loop K i ts) \<Longrightarrow> severity e = Warning \<and> type e = ''skill_coverage''"
  by (induction ts arbitrary: i) (auto dest: skillCoverage_severity)

text \<open>
  C7. Every finding returned by \<^verbatim>\<open>validateAll\<close> has severity \<^verbatim>\<open>warning\<close> when its kind is
  \<^verbatim>\<open>skill_coverage\<close> and severity \<^verbatim>\<open>error\<close> otherwise, so \<^verbatim>\<open>skill_coverage\<close> is the only
  kind that carries a warning.
\<close>

theorem validateAll_severity:
  "\<forall>e \<in> set (validateAll cs ws ts).
     severity e = (if type e = ''skill_coverage'' then Warning else Error)"
  by (auto simp: validateAll_def validateClients_def validateWorkers_def validateTasks_def
        validateCrossReferences_def
      dest: validateClients_loop_severity validateWorkers_loop_severity
        validateTasks_loop_severity skillCoverage_loop_severity)

section \<open>The findings of one row\<close>

lemma JSON_parse_Nil [simp]: "JSON_parse [] = None"
  by (simp add: JSON_parse_def)

lemma filter_row_conj:
  "filter (\<lambda>e. row e = Some i \<and> Q e) es = filter Q (filter (\<lambda>e. row e = Some i) es)"
  by (simp add: conj_commute)

subsection \<open>Workers\<close>

lemma checkAvailableSlots_at:
  "e \<in> set (checkAvailableSlots i s) \<Longrightarrow> row e = Some i \<and> column e = Some ''AvailableSlots''"
  by (auto simp: checkAvailableSlots_def slotsCommaSeparated_def
           split: if_splits option.splits json.splits)

lemma validateWorker_row: "e \<in> set (validateWorker S i w) \<Longrightarrow> row e = Some i"
  by (auto simp: validateWorker_def dest: checkAvailableSlots_at split: if_splits)

lemma validateWorker_slots:
  "filter (\<lambda>e. column e = Some ''AvailableSlots'') (validateWorker S i w) =
   checkAvailableSlots i (AvailableSlots w)"
proof -
  have "filter (\<lambda>e. column e = Some ''AvailableSlots'') (checkAvailableSlots i (AvailableSlots w))
        = checkAvailableSlots i (AvailableSlots w)"
    by (rule filter_True) (auto dest: checkAvailableSlots_at)
  then show ?thesis
    by (simp add: validateWorker_def)
qed

lemma validateWorker_malformed_list:
  "filter (\<lambda>e. type e = ''malformed_list'') (validateWorker S i w) =
   filter (\<lambda>e. type e = ''malformed_list'') (checkAvailableSlots i (AvailableSlots w))"
  by (simp add: validateWorker_def)

lemma validateWorkers_loop_rows:
  "e \<in> set (validateWorkers_loop S k ws) \<Longrightarrow> \<exists>j < length ws. row e = Some (k + j)"
proof (induction ws arbitrary: S k)
  case Nil
  then show ?case by simp
next
  case (Cons w ws)
  from Cons.prems consider "e \<in> set (validateWorker S k w)"
    | "e \<in> set (validateWorkers_loop (insert (WorkerID w) S) (Suc k) ws)"
    by auto
  then show ?case
  proof cases
    case 1
    then have "row e = Some (k + 0)" by (simp add: validateWorker_row)
    then show ?thesis by (intro exI [of _ 0]) simp
  next
    case 2
    from Cons.IH [OF 2] obtain j where "j < length ws" "row e = Some (Suc k + j)" by blast
    then show ?thesis by (intro exI [of _ "Suc j"]) simp
  qed
qed

lemma validateWorkers_loop_at:
  "i < length ws \<Longrightarrow>
   filter (\<lambda>e. row e = Some (k + i)) (validateWorkers_loop S k ws) =
   validateWorker (S \<union> set (map WorkerID (take i ws))) (k + i) (ws ! i)"
proof (induction ws arbitrary: S k i)
  case Nil
  then show ?case by simp
next
  case (Cons w ws)
  show ?case
  proof (cases i)
    case 0
    have a: "filter (\<lambda>e. row e = Some k) (validateWorker S k w) = validateWorker S k w"
      by (rule filter_True) (simp add: validateWorker_row)
    have b: "filter (\<lambda>e. row e = Some k)
               (validateWorkers_loop (insert (WorkerID w) S) (Suc k) ws) = []"
      by (auto simp: filter_empty_conv dest!: validateWorkers_loop_rows)
    show ?thesis using a b by (simp add: 0)
  next
    case (Suc i')
    with Cons.prems have i': "i' < length ws" by simp
    have a: "filter (\<lambda>e. row e = Some (k + i)) (validateWorker S k w) = []"
      by (auto simp: filter_empty_conv Suc dest!: validateWorker_row)
    have "k + i = Suc k + i'" by (simp add: Suc)
    then show ?thesis
      using a Cons.IH [OF i', of "Suc k" "insert (WorkerID w) S"] by (simp add: Suc)
  qed
qed

lemma validateWorkers_at:
  "i < length ws \<Longrightarrow>
   filter (\<lambda>e. row e = Some i) (validateWorkers ws) =
   validateWorker (set (map WorkerID (take i ws))) i (ws ! i)"
  using validateWorkers_loop_at [of i ws 0 "{}"] by (simp add: validateWorkers_def)

lemma validateWorkers_slots:
  "i < length ws \<Longrightarrow>
   findingsAt i ''AvailableSlots'' (validateWorkers ws) =
   checkAvailableSlots i (AvailableSlots (ws ! i))"
  unfolding findingsAt_def filter_row_conj
  by (simp add: validateWorkers_at validateWorker_slots)

lemma validateWorkers_malformed_list:
  "i < length ws \<Longrightarrow>
   findingsOfType i ''malformed_list'' (validateWorkers ws) =
   filter (\<lambda>e. type e = ''malformed_list'') (checkAvailableSlots i (AvailableSlots (ws ! i)))"
  unfolding findingsOfType_def filter_row_conj
  by (simp add: validateWorkers_at validateWorker_malformed_list)

subsection \<open>Tasks\<close>

lemma checkPreferredPhases_at:
  "e \<in> set (checkPreferredPhases i s) \<Longrightarrow> row e = Some i \<and> column e = Some ''PreferredPhases''"
  by (auto simp: checkPreferredPhases_def phasesRangeOrList_def
           split: if_splits option.splits list.splits)

lemma validateTask_row: "e \<in> set (validateTask S i t) \<Longrightarrow> row e = Some i"
  by (auto simp: validateTask_def dest: checkPreferredPhases_at split: if_splits)

lemma validateTask_malformed_list:
  "filter (\<lambda>e. type e = ''malformed_list'') (validateTask S i t) =
   filter (\<lambda>e. type e = ''malformed_list'') (checkPreferredPhases i (PreferredPhases t))"
  by (simp add: validateTask_def)

lemma validateTasks_loop_rows:
  "e \<in> set (validateTasks_loop S k ts) \<Longrightarrow> \<exists>j < length ts. row e = Some (k + j)"
proof (induction ts arbitrary: S k)
  case Nil
  then show ?case by simp
next
  case (Cons t ts)
  from Cons.prems consider "e \<in> set (validateTask S k t)"
    | "e \<in> set (validateTasks_loop (insert (TaskID t) S) (Suc k) ts)"
    by auto
  then show ?case
  proof cases
    case 1
    then have "row e = Some (k + 0)" by (simp add: validateTask_row)
    then show ?thesis by (intro exI [of _ 0]) simp
  next
    case 2
    from Cons.IH [OF 2] obtain j where "j < length ts" "row e = Some (Suc k + j)" by blast
    then show ?thesis by (intro exI [of _ "Suc j"]) simp
  qed
qed

lemma validateTasks_loop_at:
  "i < length ts \<Longrightarrow>
   filter (\<lambda>e. row e = Some (k + i)) (validateTasks_loop S k ts) =
   validateTask (S \<union> set (map TaskID (take i ts))) (k + i) (ts ! i)"
proof (induction ts arbitrary: S k i)
  case Nil
  then show ?case by simp
next
  case (Cons t ts)
  show ?case
  proof (cases i)
    case 0
    have a: "filter (\<lambda>e. row e = Some k) (validateTask S k t) = validateTask S k t"
      by (rule filter_True) (simp add: validateTask_row)
    have b: "filter (\<lambda>e. row e = Some k)
               (validateTasks_loop (insert (TaskID t) S) (Suc k) ts) = []"
      by (auto simp: filter_empty_conv dest!: validateTasks_loop_rows)
    show ?thesis using a b by (simp add: 0)
  next
    case (Suc i')
    with Cons.prems have i': "i' < length ts" by simp
    have a: "filter (\<lambda>e. row e = Some (k + i)) (validateTask S k t) = []"
      by (auto simp: filter_empty_conv Suc dest!: validateTask_row)
    have "k + i = Suc k + i'" by (simp add: Suc)
    then show ?thesis
      using a Cons.IH [OF i', of "Suc k" "insert (TaskID t) S"] by (simp add: Suc)
  qed
qed

lemma validateTasks_at:
  "i < length ts \<Longrightarrow>
   filter (\<lambda>e. row e = Some i) (validateTasks ts) =
   validateTask (set (map TaskID (take i ts))) i (ts ! i)"
  using validateTasks_loop_at [of i ts 0 "{}"] by (simp add: validateTasks_def)

lemma validateTasks_malformed_list:
  "i < length ts \<Longrightarrow>
   findingsOfType i ''malformed_list'' (validateTasks ts) =
   filter (\<lambda>e. type e = ''malformed_list'') (checkPreferredPhases i (PreferredPhases (ts ! i)))"
  unfolding findingsOfType_def filter_row_conj
  by (simp add: validateTasks_at validateTask_malformed_list)

section \<open>Evaluating the decoders on literal field values\<close>

lemmas json_eval = JSON_parse_def code_def isDigit_def lexNumber_def lexFraction_def
  lexExponent_def digitsVal_def hexVal_def

lemmas parseInt_eval = parseInt_def parseDigits_def trim_def isWhiteSpace_def code_def
  isDigit_def digitsVal_def hexVal_def

lemma slots_json_123: "checkAvailableSlots i ''[1,2,3]'' = []"
  by (simp add: checkAvailableSlots_def json_eval)

lemma slots_comma_123: "checkAvailableSlots i ''1, 2, 3'' = []"
  by (simp add: checkAvailableSlots_def slotsCommaSeparated_def json_eval parseInt_eval)

lemma slots_json_neg:
  "checkAvailableSlots i ''[1,-2]'' =
   [finding ''out_of_range'' ''AvailableSlots must contain positive integers'' i
      ''AvailableSlots'' ''workers'' Error]"
  by (simp add: checkAvailableSlots_def json_eval)

lemma slots_comma_neg:
  "checkAvailableSlots i ''1,-2'' =
   [finding ''malformed_list'' ''AvailableSlots contains invalid numbers'' i
      ''AvailableSlots'' ''workers'' Error]"
  by (simp add: checkAvailableSlots_def slotsCommaSeparated_def json_eval parseInt_eval)

lemma phases_range_ok: "checkPreferredPhases i ''1-3'' = []"
  by (simp add: checkPreferredPhases_def phasesRangeOrList_def includes_char_def
        json_eval parseInt_eval)

lemma phases_range_reversed:
  "checkPreferredPhases i ''3-1'' =
   [finding ''malformed_list'' ''PreferredPhases range is invalid'' i
      ''PreferredPhases'' ''tasks'' Error]"
  by (simp add: checkPreferredPhases_def phasesRangeOrList_def includes_char_def
        json_eval parseInt_eval)

lemma phases_json_123: "checkPreferredPhases i ''[1,2,3]'' = []"
  by (simp add: checkPreferredPhases_def json_eval)

lemma phases_comma_x:
  "checkPreferredPhases i ''1,2,x'' =
   [finding ''malformed_list'' ''PreferredPhases contains invalid phase numbers'' i
      ''PreferredPhases'' ''tasks'' Error]"
  by (simp add: checkPreferredPhases_def phasesRangeOrList_def includes_char_def
        json_eval parseInt_eval)

section \<open>Lower-casing\<close>

lemmas str_eval = trim_def toLowerCase_def isWhiteSpace_def code_def

lemma lowerChar_code:
  "(65 \<le> code c \<and> code c \<le> 90) \<or> (192 \<le> code c \<and> code c \<le> 222 \<and> code c \<noteq> 215)
   \<Longrightarrow> code (lowerChar c) = code c + 32"
proof (cases c)
  case (Char b0 b1 b2 b3 b4 b5 b6 b7)
  assume r: "(65 \<le> code c \<and> code c \<le> 90) \<or> (192 \<le> code c \<and> code c \<le> 222 \<and> code c \<noteq> 215)"
  have "\<not> b5"
    using r unfolding Char code_def
    by (cases b5; cases b6; cases b7; cases b4; cases b3; cases b2; cases b1; cases b0; simp)
  then show ?thesis
    using r unfolding Char by (simp add: code_def Let_def)
qed

lemma lowerChar_other:
  "\<not> ((65 \<le> code c \<and> code c \<le> 90) \<or> (192 \<le> code c \<and> code c \<le> 222 \<and> code c \<noteq> 215))
   \<Longrightarrow> lowerChar c = c"
  by (cases c) (auto simp add: Let_def)

section \<open>A run with one error and one warning\<close>

lemma validateAll_example:
  "validateAll [] [] [(sampleTasks ! 2)\<lparr>Duration := 0, RequiredSkills := ''Rust''\<rparr>]
   = [finding ''out_of_range'' ''Duration must be at least 1'' 0 ''Duration'' ''tasks'' Error,
      finding ''skill_coverage'' ''No worker has required skill: rust'' 0 ''RequiredSkills''
        ''tasks'' Warning]"
  by (simp add: validateAll_def validateClients_def validateWorkers_def validateTasks_def
      validateCrossReferences_def validateTask_def skillCoverage_def sampleTasks_def
      checkPreferredPhases_def json_eval str_eval)

theorem validateAll_severity_witness:
  "finding ''out_of_range'' ''Duration must be at least 1'' 0 ''Duration'' ''tasks'' Error
     \<in> set (validateAll [] [] [(sampleTasks ! 2)\<lparr>Duration := 0, RequiredSkills := ''Rust''\<rparr>])
   \<and> severity (finding ''out_of_range'' ''Duration must be at least 1'' 0 ''Duration'' ''tasks''
        Error)
     = (if type (finding ''out_of_range'' ''Duration must be at least 1'' 0 ''Duration''
                   ''tasks'' Error) = ''skill_coverage''
        then Warning else Error)
   \<and> finding ''skill_coverage'' ''No worker has required skill: rust'' 0 ''RequiredSkills''
       ''tasks'' Warning
     \<in> set (validateAll [] [] [(sampleTasks ! 2)\<lparr>Duration := 0, RequiredSkills := ''Rust''\<rparr>])
   \<and> severity (finding ''skill_coverage'' ''No worker has required skill: rust'' 0
        ''RequiredSkills'' ''tasks'' Warning)
     = (if type (finding ''skill_coverage'' ''No worker has required skill: rust'' 0
                   ''RequiredSkills'' ''tasks'' Warning) = ''skill_coverage''
        then Warning else Error)"
proof -
  let ?es = "validateAll [] [] [(sampleTasks ! 2)\<lparr>Duration := 0, RequiredSkills := ''Rust''\<rparr>]"
  have a: "finding ''out_of_range'' ''Duration must be at least 1'' 0 ''Duration'' ''tasks'' Error
             \<in> set ?es"
    and b: "finding ''skill_coverage'' ''No worker has required skill: rust'' 0 ''RequiredSkills''
              ''tasks'' Warning \<in> set ?es"
    unfolding validateAll_example by simp_all
  from validateAll_severity
         [of "[]" "[]" "[(sampleTasks ! 2)\<lparr>Duration := 0, RequiredSkills := ''Rust''\<rparr>]"]
  show ?thesis using a b by blast
qed

section \<open>Available slots of a worker\<close>

text \<open>
  C2, as the code has it. For a worker at any row \<open>i\<close> of any collection: the values
  \<^verbatim>\<open>[1,2,3]\<close> and \<^verbatim>\<open>1, 2, 3\<close> give no \<^verbatim>\<open>malformed_list\<close> finding on that row; \<^verbatim>\<open>1,-2\<close> gives
  exactly one; \<^verbatim>\<open>[1,-2]\<close> gives none, its sub-minimum element being reported as one
  \<^verbatim>\<open>out_of_range\<close> finding on the \<^verbatim>\<open>AvailableSlots\<close> cell.
\<close>

theorem available_slots_examples:
  assumes "i < length ws"
  shows
    "findingsOfType i ''malformed_list''
       (validateWorkers (ws[i := (ws ! i)\<lparr>AvailableSlots := ''[1,2,3]''\<rparr>])) = []
     \<and> findingsOfType i ''malformed_list''
       (validateWorkers (ws[i := (ws ! i)\<lparr>AvailableSlots := ''1, 2, 3''\<rparr>])) = []
     \<and> findingsOfType i ''malformed_list''
       (validateWorkers (ws[i := (ws ! i)\<lparr>AvailableSlots := ''1,-2''\<rparr>])) =
         [finding ''malformed_list'' ''AvailableSlots contains invalid numbers'' i
            ''AvailableSlots'' ''workers'' Error]
     \<and> findingsOfType i ''malformed_list''
       (validateWorkers (ws[i := (ws ! i)\<lparr>AvailableSlots := ''[1,-2]''\<rparr>])) = []
     \<and> findingsAt i ''AvailableSlots''
       (validateWorkers (ws[i := (ws ! i)\<lparr>AvailableSlots := ''[1,-2]''\<rparr>])) =
         [finding ''out_of_range'' ''AvailableSlots must contain positive integers'' i
            ''AvailableSlots'' ''workers'' Error]"
  using assms
  by (simp add: validateWorkers_malformed_list validateWorkers_slots
        slots_json_123 slots_comma_123 slots_comma_neg slots_json_neg)

theorem available_slots_examples_witness:
  "findingsOfType 1 ''malformed_list''
       (validateWorkers (sampleWorkers[1 := (sampleWorkers ! 1)\<lparr>AvailableSlots := ''[1,2,3]''\<rparr>]))
     = []
   \<and> findingsOfType 1 ''malformed_list''
       (validateWorkers (sampleWorkers[1 := (sampleWorkers ! 1)\<lparr>AvailableSlots := ''1, 2, 3''\<rparr>]))
     = []
   \<and> findingsOfType 1 ''malformed_list''
       (validateWorkers (sampleWorkers[1 := (sampleWorkers ! 1)\<lparr>AvailableSlots := ''1,-2''\<rparr>]))
     = [finding ''malformed_list'' ''AvailableSlots contains invalid numbers'' 1
          ''AvailableSlots'' ''workers'' Error]
   \<and> findingsOfType 1 ''malformed_list''
       (validateWorkers (sampleWorkers[1 := (sampleWorkers ! 1)\<lparr>AvailableSlots := ''[1,-2]''\<rparr>]))
     = []
   \<and> findingsAt 1 ''AvailableSlots''
       (validateWorkers (sampleWorkers[1 := (sampleWorkers ! 1)\<lparr>AvailableSlots := ''[1,-2]''\<rparr>]))
     = [finding ''out_of_range'' ''AvailableSlots must contain positive integers'' 1
          ''AvailableSlots'' ''workers'' Error]"
proof -
  have "1 < length sampleWorkers" by (simp add: sampleWorkers_def)
  from available_slots_examples [OF this] show ?thesis .
qed

text \<open>
  The claim as it is written fails: a worker whose slots are \<^verbatim>\<open>[1,-2]\<close> has no
  \<^verbatim>\<open>malformed_list\<close> finding at all, where the claim counts one.
\<close>

theorem json_slots_sub_minimum_counterexample:
  "\<not> length (filter (\<lambda>e. type e = ''malformed_list'')
               (validateWorkers [(sampleWorkers ! 0)\<lparr>AvailableSlots := ''[1,-2]''\<rparr>])) = 1"
proof -
  have "validateWorkers [(sampleWorkers ! 0)\<lparr>AvailableSlots := ''[1,-2]''\<rparr>] =
        [finding ''out_of_range'' ''AvailableSlots must contain positive integers'' 0
           ''AvailableSlots'' ''workers'' Error]"
    by (simp add: validateWorkers_def validateWorker_def sampleWorkers_def slots_json_neg)
  then show ?thesis by simp
qed

text \<open>
  C10. For a worker at row \<open>i\<close> whose slots string is \<open>s\<close>: when \<open>s\<close> parses as JSON to a
  value that is not an array, the cell has the single finding \<^verbatim>\<open>AvailableSlots must be an
  array\<close>; whenever \<open>s\<close> parses, the row has no finding of the comma-separated reading;
  when parsing throws, the cell has the findings of the comma-separated reading. The
  string \<^verbatim>\<open>5\<close> is accepted by the comma-separated reading and still rejected.
\<close>

theorem non_array_json_slots:
  assumes "i < length ws"
  shows
    "(\<forall>v. JSON_parse s = Some v \<longrightarrow> \<not> Array_isArray v \<longrightarrow>
        findingsAt i ''AvailableSlots''
          (validateWorkers (ws[i := (ws ! i)\<lparr>AvailableSlots := s\<rparr>])) =
        [finding ''malformed_list'' ''AvailableSlots must be an array'' i
           ''AvailableSlots'' ''workers'' Error])
     \<and> (JSON_parse s \<noteq> None \<longrightarrow>
        filter (\<lambda>e. row e = Some i \<and> message e = ''AvailableSlots contains invalid numbers'')
          (validateWorkers (ws[i := (ws ! i)\<lparr>AvailableSlots := s\<rparr>])) = [])
     \<and> (JSON_parse s = None \<longrightarrow> s \<noteq> [] \<longrightarrow>
        findingsAt i ''AvailableSlots''
          (validateWorkers (ws[i := (ws ! i)\<lparr>AvailableSlots := s\<rparr>])) =
        slotsCommaSeparated i s)
     \<and> slotsCommaSeparated i ''5'' = []
     \<and> findingsAt i ''AvailableSlots''
          (validateWorkers (ws[i := (ws ! i)\<lparr>AvailableSlots := ''5''\<rparr>])) =
        [finding ''malformed_list'' ''AvailableSlots must be an array'' i
           ''AvailableSlots'' ''workers'' Error]"
proof -
  let ?ws = "\<lambda>s. ws[i := (ws ! i)\<lparr>AvailableSlots := s\<rparr>]"
  have at: "findingsAt i ''AvailableSlots'' (validateWorkers (?ws s)) = checkAvailableSlots i s"
    for s
    using assms by (simp add: validateWorkers_slots)
  have a: "checkAvailableSlots i s =
           [finding ''malformed_list'' ''AvailableSlots must be an array'' i
              ''AvailableSlots'' ''workers'' Error]"
    if "JSON_parse s = Some v" "\<not> Array_isArray v" for v
    using that by (cases v) (auto simp: checkAvailableSlots_def)
  have b: "filter (\<lambda>e. row e = Some i \<and> message e = ''AvailableSlots contains invalid numbers'')
             (validateWorkers (?ws s)) = []"
    if "JSON_parse s \<noteq> None"
  proof -
    have "filter (\<lambda>e. message e = ''AvailableSlots contains invalid numbers'')
            (validateWorker S i w) = []"
      if "AvailableSlots w = s" for S w
      using that \<open>JSON_parse s \<noteq> None\<close>
      by (auto simp: validateWorker_def checkAvailableSlots_def filter_concat_map_Nil
               split: json.splits)
    then show ?thesis
      using assms unfolding filter_row_conj by (simp add: validateWorkers_at)
  qed
  have c: "checkAvailableSlots i s = slotsCommaSeparated i s"
    if "JSON_parse s = None" "s \<noteq> []"
    using that by (simp add: checkAvailableSlots_def)
  have d: "slotsCommaSeparated i ''5'' = []"
    by (simp add: slotsCommaSeparated_def parseInt_eval)
  have e: "checkAvailableSlots i ''5'' =
           [finding ''malformed_list'' ''AvailableSlots must be an array'' i
              ''AvailableSlots'' ''workers'' Error]"
    by (simp add: checkAvailableSlots_def json_eval)
  show ?thesis
    using a b c d e by (simp add: at)
qed

theorem non_array_json_slots_witness:
  "JSON_parse ''5'' = Some (JNumber 5 0)
   \<and> \<not> Array_isArray (JNumber 5 0)
   \<and> findingsAt 0 ''AvailableSlots''
       (validateWorkers (sampleWorkers[0 := (sampleWorkers ! 0)\<lparr>AvailableSlots := ''5''\<rparr>])) =
     [finding ''malformed_list'' ''AvailableSlots must be an array'' 0
        ''AvailableSlots'' ''workers'' Error]
   \<and> filter (\<lambda>e. row e = Some 0 \<and> message e = ''AvailableSlots contains invalid numbers'')
       (validateWorkers (sampleWorkers[0 := (sampleWorkers ! 0)\<lparr>AvailableSlots := ''5''\<rparr>])) = []
   \<and> JSON_parse ''1,-2'' = None
   \<and> findingsAt 0 ''AvailableSlots''
       (validateWorkers (sampleWorkers[0 := (sampleWorkers ! 0)\<lparr>AvailableSlots := ''1,-2''\<rparr>])) =
     slotsCommaSeparated 0 ''1,-2''"
proof -
  have len: "0 < length sampleWorkers" by (simp add: sampleWorkers_def)
  have five: "JSON_parse ''5'' = Some (JNumber 5 0)" by (simp add: json_eval)
  have thrown: "JSON_parse ''1,-2'' = None" by (simp add: json_eval)
  from non_array_json_slots [OF len, of "''5''"] non_array_json_slots [OF len, of "''1,-2''"]
  show ?thesis
    unfolding five thrown by simp
qed

section \<open>Preferred phases of a task\<close>

text \<open>
  C9. For a task at any row \<open>i\<close> of any collection: the value \<^verbatim>\<open>1-3\<close> gives no
  \<^verbatim>\<open>malformed_list\<close> finding on that row, \<^verbatim>\<open>3-1\<close> gives exactly one, \<^verbatim>\<open>[1,2,3]\<close> gives none
  and \<^verbatim>\<open>1,2,x\<close> gives exactly one.
\<close>

theorem preferred_phases_examples:
  assumes "i < length ts"
  shows
    "findingsOfType i ''malformed_list''
       (validateTasks (ts[i := (ts ! i)\<lparr>PreferredPhases := ''1-3''\<rparr>])) = []
     \<and> findingsOfType i ''malformed_list''
       (validateTasks (ts[i := (ts ! i)\<lparr>PreferredPhases := ''3-1''\<rparr>])) =
         [finding ''malformed_list'' ''PreferredPhases range is invalid'' i
            ''PreferredPhases'' ''tasks'' Error]
     \<and> findingsOfType i ''malformed_list''
       (validateTasks (ts[i := (ts ! i)\<lparr>PreferredPhases := ''[1,2,3]''\<rparr>])) = []
     \<and> findingsOfType i ''malformed_list''
       (validateTasks (ts[i := (ts ! i)\<lparr>PreferredPhases := ''1,2,x''\<rparr>])) =
         [finding ''malformed_list'' ''PreferredPhases contains invalid phase numbers'' i
            ''PreferredPhases'' ''tasks'' Error]"
  using assms
  by (simp add: validateTasks_malformed_list
        phases_range_ok phases_range_reversed phases_json_123 phases_comma_x)

theorem preferred_phases_examples_witness:
  "findingsOfType 2 ''malformed_list''
       (validateTasks (sampleTasks[2 := (sampleTasks ! 2)\<lparr>PreferredPhases := ''1-3''\<rparr>])) = []
   \<and> findingsOfType 2 ''malformed_list''
       (validateTasks (sampleTasks[2 := (sampleTasks ! 2)\<lparr>PreferredPhases := ''3-1''\<rparr>])) =
         [finding ''malformed_list'' ''PreferredPhases range is invalid'' 2
            ''PreferredPhases'' ''tasks'' Error]
   \<and> findingsOfType 2 ''malformed_list''
       (validateTasks (sampleTasks[2 := (sampleTasks ! 2)\<lparr>PreferredPhases := ''[1,2,3]''\<rparr>])) = []
   \<and> findingsOfType 2 ''malformed_list''
       (validateTasks (sampleTasks[2 := (sampleTasks ! 2)\<lparr>PreferredPhases := ''1,2,x''\<rparr>])) =
         [finding ''malformed_list'' ''PreferredPhases contains invalid phase numbers'' 2
            ''PreferredPhases'' ''tasks'' Error]"
proof -
  have "2 < length sampleTasks" by (simp add: sampleTasks_def)
  from preferred_phases_examples [OF this] show ?thesis .
qed

text \<open>Whatever the elements of a JSON array of phases are, the check has no finding.\<close>

lemma json_array_phases_any:
  "JSON_parse s = Some (JArray elems) \<Longrightarrow> checkPreferredPhases i s = []"
  by (simp add: checkPreferredPhases_def)

text \<open>
  C3 asks for a \<^verbatim>\<open>malformed_list\<close> finding for each element of a JSON array of phases
  that is not an integer of at least 1. The code does not look at the elements: the
  array \<^verbatim>\<open>[0,1.5,"x"]\<close>, with a zero, a fraction and a string, passes
  \<^verbatim>\<open>validateTasks\<close> with no finding, while the same check exists for the comma-separated
  reading of the field and for the JSON array of a worker's slots.
\<close>

theorem json_array_phases_unchecked:
  "JSON_parse ''[0,1.5,\"x\"]'' =
     Some (JArray [JNumber 0 0, JNumber 15 (- 1), JString [120]])
   \<and> validateTasks [(sampleTasks ! 0)\<lparr>PreferredPhases := ''[0,1.5,\"x\"]''\<rparr>] = []
   \<and> length (findingsAt 0 ''AvailableSlots''
        (validateWorkers [(sampleWorkers ! 0)\<lparr>AvailableSlots := ''[0,1.5,\"x\"]''\<rparr>])) = 3
   \<and> length (findingsOfType 0 ''malformed_list''
        (validateTasks [(sampleTasks ! 0)\<lparr>PreferredPhases := ''0,1.5,x''\<rparr>])) = 1"
proof -
  have p: "JSON_parse ''[0,1.5,\"x\"]'' =
           Some (JArray [JNumber 0 0, JNumber 15 (- 1), JString [120]])"
    by (simp add: json_eval)
  have a: "validateTasks [(sampleTasks ! 0)\<lparr>PreferredPhases := ''[0,1.5,\"x\"]''\<rparr>] = []"
    by (simp add: validateTasks_def validateTask_def sampleTasks_def checkPreferredPhases_def p)
  have b: "length (findingsAt 0 ''AvailableSlots''
        (validateWorkers [(sampleWorkers ! 0)\<lparr>AvailableSlots := ''[0,1.5,\"x\"]''\<rparr>])) = 3"
    by (simp add: validateWorkers_slots checkAvailableSlots_def p)
  have n: "JSON_parse ''0,1.5,x'' = None"
    by (simp add: json_eval)
  have c: "length (findingsOfType 0 ''malformed_list''
        (validateTasks [(sampleTasks ! 0)\<lparr>PreferredPhases := ''0,1.5,x''\<rparr>])) = 1"
    by (simp add: validateTasks_malformed_list checkPreferredPhases_def n phasesRangeOrList_def
          includes_char_def parseInt_eval)
  show ?thesis using p a b c by blast
qed

section \<open>Skill coverage\<close>

lemma fold_insert_image: "fold (\<lambda>x a. insert (f x) a) xs acc = acc \<union> f ` set xs"
  by (induction xs arbitrary: acc) auto

lemma allWorkerSkills_eq:
  "allWorkerSkills acc ws =
   acc \<union> (\<Union>w \<in> set ws. if Skills w \<noteq> []
                          then (\<lambda>s. toLowerCase (trim s)) ` set (split CHR '','' (Skills w))
                          else {})"
  by (induction ws arbitrary: acc) (auto simp: fold_insert_image)

lemma trim_Nil [simp]: "trim [] = []"
  by (simp add: trim_def)

text \<open>A normalised, non-empty tag is offered exactly when some token of some worker's
  skill string normalises to it.\<close>

lemma allWorkerSkills_member:
  assumes "n \<noteq> []"
  shows "n \<in> allWorkerSkills {} ws \<longleftrightarrow>
         (\<exists>w \<in> set ws. \<exists>s \<in> set (split CHR '','' (Skills w)). toLowerCase (trim s) = n)"
proof -
  have "(\<exists>s \<in> set (split CHR '','' (Skills w)). toLowerCase (trim s) = n) \<longleftrightarrow>
        Skills w \<noteq> [] \<and> (\<exists>s \<in> set (split CHR '','' (Skills w)). toLowerCase (trim s) = n)"
    for w
    using assms by (cases "Skills w = []") (auto simp: toLowerCase_def)
  then show ?thesis
    unfolding allWorkerSkills_eq by (auto split: if_splits)
qed

lemma skillCoverage_row: "e \<in> set (skillCoverage K i t) \<Longrightarrow> row e = Some i"
  by (auto simp: skillCoverage_def split: if_splits)

lemma skillCoverage_loop_rows:
  "e \<in> set (skillCoverage_loop K k ts) \<Longrightarrow> \<exists>j < length ts. row e = Some (k + j)"
proof (induction ts arbitrary: k)
  case Nil
  then show ?case by simp
next
  case (Cons t ts)
  from Cons.prems consider "e \<in> set (skillCoverage K k t)"
    | "e \<in> set (skillCoverage_loop K (Suc k) ts)"
    by auto
  then show ?case
  proof cases
    case 1
    then have "row e = Some (k + 0)" by (simp add: skillCoverage_row)
    then show ?thesis by (intro exI [of _ 0]) simp
  next
    case 2
    from Cons.IH [OF 2] obtain j where "j < length ts" "row e = Some (Suc k + j)" by blast
    then show ?thesis by (intro exI [of _ "Suc j"]) simp
  qed
qed

lemma skillCoverage_loop_at:
  "i < length ts \<Longrightarrow>
   filter (\<lambda>e. row e = Some (k + i)) (skillCoverage_loop K k ts) = skillCoverage K (k + i) (ts ! i)"
proof (induction ts arbitrary: k i)
  case Nil
  then show ?case by simp
next
  case (Cons t ts)
  show ?case
  proof (cases i)
    case 0
    have a: "filter (\<lambda>e. row e = Some k) (skillCoverage K k t) = skillCoverage K k t"
      by (rule filter_True) (simp add: skillCoverage_row)
    have b: "filter (\<lambda>e. row e = Some k) (skillCoverage_loop K (Suc k) ts) = []"
      by (auto simp: filter_empty_conv dest!: skillCoverage_loop_rows)
    show ?thesis using a b by (simp add: 0)
  next
    case (Suc i')
    with Cons.prems have i': "i' < length ts" by simp
    have a: "filter (\<lambda>e. row e = Some (k + i)) (skillCoverage K k t) = []"
      by (auto simp: filter_empty_conv Suc dest!: skillCoverage_row)
    have "k + i = Suc k + i'" by (simp add: Suc)
    then show ?thesis
      using a Cons.IH [OF i', of "Suc k"] by (simp add: Suc)
  qed
qed

lemma validateCrossReferences_at:
  "i < length ts \<Longrightarrow>
   filter (\<lambda>e. row e = Some i) (validateCrossReferences cs ws ts) =
   skillCoverage (allWorkerSkills {} ws) i (ts ! i)"
  using skillCoverage_loop_at [of i ts 0 "allWorkerSkills {} ws"]
  by (simp add: validateCrossReferences_def)

lemma validateCrossReferences_no_error:
  "filter (\<lambda>e. severity e = Error) (validateCrossReferences cs ws ts) = []"
  by (auto simp: filter_empty_conv validateCrossReferences_def
           dest!: skillCoverage_loop_severity)

lemma concat_map_if_singleton:
  "concat (map (\<lambda>x. if P x then [f x] else []) xs) = map f (filter P xs)"
  by (induction xs) simp_all

lemma toLowerCase_Nil [simp]: "toLowerCase [] = []"
  by (simp add: toLowerCase_def)

text \<open>
  The findings of one task: one warning for each token of its required skills that,
  trimmed and lower-cased, is not empty and not in the set of worker skills. An empty
  field has the single token \<open>[]\<close>, so the guard on the field changes nothing.
\<close>

lemma skillCoverage_eq:
  "skillCoverage K i t =
   map (\<lambda>n. finding ''skill_coverage'' (''No worker has required skill: '' @ n) i
               ''RequiredSkills'' ''tasks'' Warning)
     (filter (\<lambda>n. n \<noteq> [] \<and> n \<notin> K)
        (map (\<lambda>s. toLowerCase (trim s)) (split CHR '','' (RequiredSkills t))))"
proof (cases "RequiredSkills t = []")
  case True
  then show ?thesis by (simp add: skillCoverage_def)
next
  case False
  then show ?thesis
    unfolding skillCoverage_def by (simp only: if_True concat_map_if_singleton simp_thms)
qed

lemma skillCoverage_loop_concat:
  "skillCoverage_loop K k ts =
   concat (map (\<lambda>j. skillCoverage K (k + j) (ts ! j)) [0..<length ts])"
proof (induction ts arbitrary: k)
  case Nil
  show ?case by simp
next
  case (Cons t ts)
  have "[0..<length (t # ts)] = 0 # map Suc [0..<length ts]"
    by (simp add: upt_conv_Cons map_Suc_upt del: upt_Suc)
  then show ?case
    by (simp add: Cons.IH o_def del: upt_Suc)
qed

text \<open>
  C8. The cross-reference validator returns, for the tasks in row order and for the
  tokens of each task's required skills in order, one \<^verbatim>\<open>skill_coverage\<close> warning on the
  \<^verbatim>\<open>RequiredSkills\<close> cell of the task's row for every token that, trimmed and lower-cased,
  is not empty and is not equal to any token of any worker's skill string, trimmed and
  lower-cased; and nothing else. In particular a required skill that some worker lists
  in any letter case gives no warning, one that no worker lists gives exactly one per
  mention, and no finding of the validator has severity \<^verbatim>\<open>error\<close>.
\<close>

theorem skill_coverage_case_insensitive:
  "validateCrossReferences cs ws ts =
     concat (map (\<lambda>i.
       map (\<lambda>n. finding ''skill_coverage'' (''No worker has required skill: '' @ n) i
                   ''RequiredSkills'' ''tasks'' Warning)
         (filter (\<lambda>n. n \<noteq> [] \<and>
                    \<not> (\<exists>w \<in> set ws. \<exists>s \<in> set (split CHR '','' (Skills w)).
                          toLowerCase (trim s) = n))
            (map (\<lambda>s. toLowerCase (trim s)) (split CHR '','' (RequiredSkills (ts ! i))))))
       [0..<length ts])
   \<and> filter (\<lambda>e. severity e = Error) (validateCrossReferences cs ws ts) = []"
proof -
  have "filter (\<lambda>n. n \<noteq> [] \<and> n \<notin> allWorkerSkills {} ws) xs =
        filter (\<lambda>n. n \<noteq> [] \<and>
                  \<not> (\<exists>w \<in> set ws. \<exists>s \<in> set (split CHR '','' (Skills w)).
                        toLowerCase (trim s) = n)) xs" for xs
  proof (rule filter_cong [OF refl])
    fix n
    show "(n \<noteq> [] \<and> n \<notin> allWorkerSkills {} ws) =
          (n \<noteq> [] \<and>
             \<not> (\<exists>w \<in> set ws. \<exists>s \<in> set (split CHR '','' (Skills w)).
                   toLowerCase (trim s) = n))"
      using allWorkerSkills_member [of n ws] by (cases "n = []") simp_all
  qed
  then show ?thesis
    by (simp add: validateCrossReferences_def skillCoverage_loop_concat skillCoverage_eq
          validateCrossReferences_no_error [unfolded validateCrossReferences_def])
qed

text \<open>
  The sample worker W003 lists Java, Spring and MySQL. A task requiring \<^verbatim>\<open>Rust\<close> gets one
  warning; with a second worker whose skills are \<^verbatim>\<open>Go, RUST\<close> it gets none; a task
  requiring \<^verbatim>\<open>JavaScript,React\<close> gets one warning for each of the two.
\<close>

theorem skill_coverage_case_insensitive_witness:
  "validateCrossReferences sampleClients [sampleWorkers ! 2]
       [(sampleTasks ! 0)\<lparr>RequiredSkills := ''Rust''\<rparr>] =
     [finding ''skill_coverage'' ''No worker has required skill: rust'' 0
        ''RequiredSkills'' ''tasks'' Warning]
   \<and> filter (\<lambda>e. severity e = Error)
       (validateCrossReferences sampleClients [sampleWorkers ! 2]
          [(sampleTasks ! 0)\<lparr>RequiredSkills := ''Rust''\<rparr>]) = []
   \<and> validateCrossReferences sampleClients
       [sampleWorkers ! 2, (sampleWorkers ! 0)\<lparr>Skills := ''Go, RUST''\<rparr>]
       [(sampleTasks ! 0)\<lparr>RequiredSkills := ''Rust''\<rparr>] = []
   \<and> validateCrossReferences sampleClients [sampleWorkers ! 2]
       [(sampleTasks ! 0)\<lparr>RequiredSkills := ''JavaScript,React''\<rparr>] =
     [finding ''skill_coverage'' ''No worker has required skill: javascript'' 0
        ''RequiredSkills'' ''tasks'' Warning,
      finding ''skill_coverage'' ''No worker has required skill: react'' 0
        ''RequiredSkills'' ''tasks'' Warning]"
proof -
  have rust: "map (\<lambda>s. toLowerCase (trim s)) (split CHR '','' ''Rust'') = [''rust'']"
    by (simp add: str_eval)
  have js: "map (\<lambda>s. toLowerCase (trim s)) (split CHR '','' ''JavaScript,React'')
            = [''javascript'', ''react'']"
    by (simp add: str_eval)
  have java: "(\<lambda>s. toLowerCase (trim s)) ` set (split CHR '','' ''Java,Spring,MySQL'')
              = {''java'', ''spring'', ''mysql''}"
    by (simp add: str_eval)
  have go: "(\<lambda>s. toLowerCase (trim s)) ` set (split CHR '','' ''Go, RUST'') = {''go'', ''rust''}"
    by (simp add: str_eval)
  have ex: "(\<exists>s \<in> set (split CHR '','' t). toLowerCase (trim s) = n) \<longleftrightarrow>
            n \<in> (\<lambda>s. toLowerCase (trim s)) ` set (split CHR '','' t)" for t n
    by auto
  have w2: "Skills (sampleWorkers ! 2) = ''Java,Spring,MySQL''"
    by (simp add: sampleWorkers_def)
  have one: "[0..<length [x]] = [0]" for x :: Task
    by simp
  from skill_coverage_case_insensitive
         [of sampleClients "[sampleWorkers ! 2]" "[(sampleTasks ! 0)\<lparr>RequiredSkills := ''Rust''\<rparr>]"]
       skill_coverage_case_insensitive
         [of sampleClients "[sampleWorkers ! 2, (sampleWorkers ! 0)\<lparr>Skills := ''Go, RUST''\<rparr>]"
             "[(sampleTasks ! 0)\<lparr>RequiredSkills := ''Rust''\<rparr>]"]
       skill_coverage_case_insensitive
         [of sampleClients "[sampleWorkers ! 2]"
             "[(sampleTasks ! 0)\<lparr>RequiredSkills := ''JavaScript,React''\<rparr>]"]
  show ?thesis
    unfolding one by (simp add: ex w2 java go rust js del: split.simps)
qed

section \<open>The export gate\<close>

text \<open>
  C6. \<^verbatim>\<open>canExport\<close> holds exactly when the finding list of the state has no finding of
  severity \<^verbatim>\<open>error\<close> and none of the three collections is empty; it depends on the
  findings of severity \<^verbatim>\<open>error\<close> only, so warnings do not block; and \<^verbatim>\<open>handleExport\<close>
  refuses with its alert exactly when \<^verbatim>\<open>canExport\<close> fails, and otherwise writes the
  three files and the rule configuration.
\<close>

theorem export_gate:
  "(canExport st \<longleftrightarrow>
      filter (\<lambda>e. severity e = Error) (validationErrors st) = []
      \<and> clients st \<noteq> [] \<and> workers st \<noteq> [] \<and> tasks st \<noteq> [])
   \<and> canExport (st\<lparr>validationErrors :=
                     filter (\<lambda>e. severity e = Error) (validationErrors st)\<rparr>) = canExport st
   \<and> handleExport st =
       (if canExport st
        then [ExportToCSV (clients st) ''clients.csv'',
              ExportToCSV (workers st) ''workers.csv'',
              ExportToCSV (tasks st) ''tasks.csv'',
              ExportRulesToJSON (rules st) (priorities st),
              Alert ''Files exported successfully! Check your downloads folder.'']
        else [Alert ''Please fix all validation errors before exporting.''])"
  by (auto simp: canExport_def handleExport_def Let_def)

text \<open>
  The three cases of the claim on the sample state: no error and all collections
  non-empty (a warning is present) permits; no worker refuses; one error refuses.
\<close>

theorem export_gate_witness:
  "canExport sampleHome
   \<and> \<not> canExport (sampleHome\<lparr>workers := []\<rparr>)
   \<and> \<not> canExport (sampleHome\<lparr>validationErrors :=
         [finding ''out_of_range'' ''Duration must be at least 1'' 0 ''Duration'' ''tasks''
            Error]\<rparr>)
   \<and> handleExport (sampleHome\<lparr>workers := []\<rparr>) =
       [Alert ''Please fix all validation errors before exporting.'']"
  using export_gate [of sampleHome] export_gate [of "sampleHome\<lparr>workers := []\<rparr>"]
    export_gate [of "sampleHome\<lparr>validationErrors :=
         [finding ''out_of_range'' ''Duration must be at least 1'' 0 ''Duration'' ''tasks''
            Error]\<rparr>"]
  by (simp add: sampleHome_def)

section \<open>Applying a correction\<close>

lemma rows_assignField:
  assumes "distinct arr" and "i < length arr"
  shows "rows (assignField (arr ! i) field newValue h) arr =
         (rows h arr)[i := (rows h arr ! i)(field \<mapsto> newValue)]"
proof (rule nth_equalityI)
  show "length (rows (assignField (arr ! i) field newValue h) arr) =
        length ((rows h arr)[i := (rows h arr ! i)(field \<mapsto> newValue)])"
    by (simp add: rows_def)
next
  fix j
  assume "j < length (rows (assignField (arr ! i) field newValue h) arr)"
  then have j: "j < length arr" by (simp add: rows_def)
  show "rows (assignField (arr ! i) field newValue h) arr ! j =
        (rows h arr)[i := (rows h arr ! i)(field \<mapsto> newValue)] ! j"
  proof (cases "j = i")
    case True
    with assms(2) show ?thesis by (simp add: rows_def assignField_def)
  next
    case False
    with assms j have "arr ! j \<noteq> arr ! i" by (simp add: nth_eq_iff_index_eq)
    with False j assms(2) show ?thesis by (simp add: rows_def assignField_def)
  qed
qed

text \<open>
  C5. Every array the page stores holds pairwise different row objects (one object is
  made per uploaded or sample row, and \<^verbatim>\<open>filter\<close> and the spread copy keep them apart).
  For such a collection, an in-bounds apply on any of the three entity tags, with any
  field name and any new value, succeeds, and the rows of the new collection are the
  rows of the collection before the call with the one field of the one row replaced.
  The new value is not inspected.
\<close>

theorem handleApplyFix_result:
  assumes "entityType = ''clients'' \<or> entityType = ''workers'' \<or> entityType = ''tasks''"
    and "distinct (collection entityType st)"
    and "rowIndex < length (collection entityType st)"
  shows "\<exists>st'. handleApplyFix entityType rowIndex field newValue st = Inr st'
           \<and> rows (heap st') (collection entityType st') =
               (rows (heap st) (collection entityType st))
                 [rowIndex := (rows (heap st) (collection entityType st) ! rowIndex)
                                (field \<mapsto> newValue)]"
proof -
  let ?arr = "collection entityType st"
  let ?st' = "st\<lparr>heap := assignField (?arr ! rowIndex) field newValue (heap st)\<rparr>"
  have run: "handleApplyFix entityType rowIndex field newValue st = Inr ?st'"
    and same: "collection entityType ?st' = ?arr"
    using assms(1)
  proof -
    from assms(1) consider (c) "entityType = ''clients''" | (w) "entityType = ''workers''"
      | (t) "entityType = ''tasks''"
      by blast
    then have "handleApplyFix entityType rowIndex field newValue st = Inr ?st'
               \<and> collection entityType ?st' = ?arr"
    proof cases
      case c
      with assms(3) show ?thesis
        by (simp add: handleApplyFix_def collection_def Let_def)
    next
      case w
      with assms(3) show ?thesis
        by (simp add: handleApplyFix_def collection_def Let_def)
    next
      case t
      with assms(3) show ?thesis
        by (simp add: handleApplyFix_def collection_def Let_def)
    qed
    then show "handleApplyFix entityType rowIndex field newValue st = Inr ?st'"
      and "collection entityType ?st' = ?arr"
      by simp_all
  qed
  have "rows (heap ?st') (collection entityType ?st') =
        (rows (heap st) ?arr)[rowIndex := (rows (heap st) ?arr ! rowIndex)(field \<mapsto> newValue)]"
    unfolding same using rows_assignField [OF assms(2,3)] by simp
  with run show ?thesis by blast
qed

theorem handleApplyFix_result_witness:
  "(\<exists>st'. handleApplyFix ''clients'' 1 ''ClientName'' ''TechStart Ltd'' sampleHome = Inr st'
      \<and> rows (heap st') (collection ''clients'' st') =
          (rows (heap sampleHome) (collection ''clients'' sampleHome))
            [1 := (rows (heap sampleHome) (collection ''clients'' sampleHome) ! 1)
                    (''ClientName'' \<mapsto> ''TechStart Ltd'')])
   \<and> distinct (collection ''clients'' sampleHome)
   \<and> 1 < length (collection ''clients'' sampleHome)"
proof -
  have d: "distinct (collection ''clients'' sampleHome)"
    and l: "1 < length (collection ''clients'' sampleHome)"
    by (simp_all add: collection_def sampleHome_def)
  have e: "''clients'' = ''clients'' \<or> ''clients'' = ''workers'' \<or> ''clients'' = ''tasks''"
    by simp
  from handleApplyFix_result [OF e d l, of "''ClientName''" "''TechStart Ltd''"] d l
  show ?thesis by blast
qed

text \<open>
  C4 says that after an apply the collection that was passed in, with every row record
  of it, is as before. The code copies the array and then assigns into the row object
  that both arrays share: after applying \<^verbatim>\<open>('clients', 0, 'ClientName', 'Acme Ltd')\<close> to the
  sample state, row 0 of the old \<^verbatim>\<open>clients\<close> array reads \<^verbatim>\<open>Acme Ltd\<close>, where it read
  \<^verbatim>\<open>Acme Corp\<close> before.
\<close>

theorem handleApplyFix_mutates_shared_row:
  "(rows (heap sampleHome) (clients sampleHome) ! 0) ''ClientName'' = Some ''Acme Corp''
   \<and> (case handleApplyFix ''clients'' 0 ''ClientName'' ''Acme Ltd'' sampleHome of
        Inl ex \<Rightarrow> False
      | Inr st' \<Rightarrow>
          clients st' = clients sampleHome
          \<and> (rows (heap st') (clients sampleHome) ! 0) ''ClientName'' = Some ''Acme Ltd''
          \<and> rows (heap st') (clients sampleHome) \<noteq> rows (heap sampleHome) (clients sampleHome))"
proof -
  have "rows (assignField 0 ''ClientName'' ''Acme Ltd'' sampleHeap) [0, 1]
        \<noteq> rows sampleHeap [0, 1]"
  proof
    assume "rows (assignField 0 ''ClientName'' ''Acme Ltd'' sampleHeap) [0, 1]
            = rows sampleHeap [0, 1]"
    then have "assignField 0 ''ClientName'' ''Acme Ltd'' sampleHeap 0 ''ClientName''
               = sampleHeap 0 ''ClientName''"
      by (simp add: rows_def)
    then show False by (simp add: assignField_def sampleHeap_def)
  qed
  then show ?thesis
    by (simp add: handleApplyFix_def sampleHome_def rows_def assignField_def sampleHeap_def)
qed

end
